theory Spec2Isabelle
  imports Complex_Main "HOL-Library.Stream" "HOL-Library.AList"
begin

section \<open>Kingdom Simulator: the game-state core of \<open>src/main.tsx\<close>\<close>

text \<open>
  The development embeds the state record of \<open>src/main.tsx\<close> (type \<open>State\<close>), its
  static tables and the command handlers defined inside the \<open>App\<close> component.
  A JavaScript number is a binary64 value. The fields that only ever hold integers far
  below \<open>2^53\<close> have type \<open>int\<close>, and their arithmetic is exact. The treasury and the
  inventory counters can hold fractions, because the shop accepts any quantity of at
  least 1: they have type \<open>rat\<close>, and every sum, difference and product stored in them is
  rounded to the nearest binary64 value (\<open>round_double\<close>). Infinities and \<open>NaN\<close> are not
  modelled. The value returned by one call of \<open>Math.random()\<close> is a rational \<open>u\<close> with
  \<open>0 \<le> u \<le> 1 - 2^-53\<close>, which holds for every binary64 value below 1; a handler receives
  the values of its successive calls as a stream.
\<close>

subsection \<open>Data and types\<close>

datatype Tag = Event | Good | Warn | Danger | System | Merchant | Muted

record Weapon =
  wid :: int
  era :: int
  wname :: string
  wprice :: int
  damage :: int

datatype InvKey =
  Khpotion | Kdpotion | Kmpotion | Kspotion | Klightning_potion | Ksleep_potion
  | Kpoison_potion | Kbread | Kmeat | Kfruit | Kcheese

record Item =
  item_id :: int
  item_name :: string
  item_price :: int
  item_var :: InvKey

record EnemyCfg =
  health :: int
  damage_min :: int
  damage_max :: int
  coins_min :: int
  coins_max :: int

record Policy =
  locked :: bool
  active :: bool
  desc :: string

text \<open>
  \<open>Policies\<close> is a JavaScript object indexed by strings. \<open>Object.keys\<close> lists the keys in
  insertion order, and overwriting an existing key keeps its position, which is what
  \<open>AList.update\<close> does on an association list.
\<close>

type_synonym Policies = "(string \<times> Policy) list"

record Inventory =
  hpotion :: rat
  dpotion :: rat
  mpotion :: rat
  spotion :: rat
  lightning_potion :: rat
  sleep_potion :: rat
  poison_potion :: rat
  bread :: rat
  meat :: rat
  fruit :: rat
  cheese :: rat

datatype Effect = Happiness | Maxstrength

text \<open>
  \<open>MerchantOffer\<close> is the tagged union of \<open>MerchantWeaponOffer\<close> (kind "weapon") and
  \<open>MerchantUniqueOffer\<close> (kind "unique", whose effect may be \<open>null\<close>).
\<close>

datatype MerchantOffer =
  WeaponOffer (offer_name: string) (offer_bonus: int) (offer_price: int)
  | UniqueOffer (offer_name: string) (offer_effect: "Effect option") (offer_value: int)
      (offer_price: int)

record FightState =
  cfg :: "EnemyCfg option"
  stunned :: bool
  poisonTurns :: int

record LogEntry =
  ltext :: string
  ltag :: Tag
  lid :: int

record State =
  name :: string
  day :: int
  death_day :: int
  money :: rat
  exmoney :: int
  pmoney :: int
  people :: int
  maxpeople :: int
  happiness :: int
  phealth :: int
  maxphealth :: int
  strength :: int
  maxstrength :: int
  ehealth :: int
  inventory :: Inventory
  currentEra :: string
  currentSword :: string
  minDmg :: int
  maxDmg :: int
  wfight :: int
  lfight :: int
  merchant_relationship :: int
  merchant_weapon_log :: "(string \<times> bool) list"
  last_merchant_offer_type :: "string option"
  number :: int
  owned_weapon :: "(int \<times> int) list"
  policies :: Policies
  logs :: "LogEntry list"
  pendingMerchant :: "MerchantOffer option"
  fight :: FightState

subsection \<open>Numbers\<close>

text \<open>
  \<open>round_double x\<close> is the binary64 value nearest to \<open>x\<close>, ties going to the even
  significand. \<open>binade x\<close> is the exponent \<open>e\<close> with \<open>2^(e-1) \<le> x < 2^e\<close> of a positive \<open>x\<close>,
  not below \<open>-1021\<close> (the subnormal range); the spacing of the binary64 values there is
  \<open>2^(e-53)\<close>. \<open>rne\<close> rounds to the nearest integer, ties to even.
\<close>

definition rne :: "rat \<Rightarrow> int" where
  "rne x =
     (let f = \<lfloor>x\<rfloor>; r = x - of_int f
      in if r < 1 / 2 then f else if 1 / 2 < r then f + 1 else if even f then f else f + 1)"

fun bits :: "nat \<Rightarrow> nat" where
  "bits n = (if n = 0 then 0 else Suc (bits (n div 2)))"

declare bits.simps [simp del]

fun halvings :: "nat \<Rightarrow> rat \<Rightarrow> nat" where
  "halvings 0 x = 0"
| "halvings (Suc n) x = (if x < 1 / 2 then Suc (halvings n (2 * x)) else 0)"

definition binade :: "rat \<Rightarrow> int" where
  "binade x = (if 1 \<le> x then int (bits (nat \<lfloor>x\<rfloor>)) else - int (halvings 1021 x))"

definition round_pos :: "rat \<Rightarrow> rat" where
  "round_pos x =
     (let e = binade x
      in if e \<le> 53 then of_int (rne (x * 2 ^ nat (53 - e))) / 2 ^ nat (53 - e)
         else of_int (rne (x / 2 ^ nat (e - 53))) * 2 ^ nat (e - 53))"

definition round_double :: "rat \<Rightarrow> rat" where
  "round_double x = (if x = 0 then 0 else if 0 < x then round_pos x else - round_pos (- x))"

subsection \<open>Utilities\<close>

definition clamp :: "int \<Rightarrow> int \<Rightarrow> int \<Rightarrow> int" where
  "clamp v lo hi = max lo (min hi v)"

text \<open>
  \<open>rand a b\<close> is \<open>Math.floor(Math.random() * (b - a + 1)) + a\<close>; the argument \<open>u\<close> is the
  value of the call of \<open>Math.random()\<close>.
\<close>

definition rand :: "int \<Rightarrow> int \<Rightarrow> rat \<Rightarrow> int" where
  "rand a b u = \<lfloor>round_double (u * of_int (b - a + 1))\<rfloor> + a"

type_synonym rng = "rat stream"

definition unit_draws :: "rng \<Rightarrow> bool" where
  "unit_draws g = (\<forall>u \<in> sset g. 0 \<le> u \<and> u \<le> 1 - 1 / 2 ^ 53)"

text \<open>Decimal rendering of an integer inside a template literal.\<close>

function show_nat :: "nat \<Rightarrow> string" where
  "show_nat n =
     (if n < 10 then [char_of (48 + n)]
      else show_nat (n div 10) @ [char_of (48 + n mod 10)])"
  by pat_completeness auto
termination
  by (relation "measure (\<lambda>n. n)") auto

declare show_nat.simps [simp del]

definition show_int :: "int \<Rightarrow> string" where
  "show_int i = (if i < 0 then CHR ''-'' # show_nat (nat (- i)) else show_nat (nat i))"

text \<open>
  Rendering of a number that may hold a fraction (\<open>Number::toString\<close>): the digits
  \<open>s\<close>, their count \<open>k\<close> and the decimal exponent \<open>n\<close> are chosen with \<open>k\<close> as small as
  possible such that \<open>s * 10^(n-k)\<close> rounds back to the number. For each \<open>k\<close> the two
  integers around \<open>x / 10^(n-k)\<close>, the nearer one first, and the next power of ten are
  tried. The notation is plain for \<open>-5 \<le> n \<le> 21\<close> and exponential otherwise.
\<close>

definition pow10 :: "int \<Rightarrow> rat" where
  "pow10 i = (if 0 \<le> i then 10 ^ nat i else 1 / 10 ^ nat (- i))"

fun tenths :: "nat \<Rightarrow> rat \<Rightarrow> nat" where
  "tenths 0 x = 0"
| "tenths (Suc f) x = (if x < 1 / 10 then Suc (tenths f (10 * x)) else 0)"

definition decimal_exponent :: "rat \<Rightarrow> int" where
  "decimal_exponent x =
     (if 1 \<le> x then int (length (show_nat (nat \<lfloor>x\<rfloor>))) else - int (tenths 400 x))"

definition digit_candidates :: "rat \<Rightarrow> int \<Rightarrow> nat \<Rightarrow> (int \<times> int) list" where
  "digit_candidates x n k =
     (let q = x / pow10 (n - int k);
          lo = \<lfloor>q\<rfloor>
      in (if q - of_int lo \<le> 1 / 2 then [(n, lo), (n, lo + 1)] else [(n, lo + 1), (n, lo)])
         @ [(n + 1, 10 ^ (k - 1))])"

definition reads_back :: "rat \<Rightarrow> nat \<Rightarrow> int \<times> int \<Rightarrow> bool" where
  "reads_back x k c =
     (case c of (n, s) \<Rightarrow>
        10 ^ (k - 1) \<le> s \<and> s < 10 ^ k \<and> round_double (of_int s * pow10 (n - int k)) = x)"

fun shortest_digits :: "nat \<Rightarrow> rat \<Rightarrow> int \<Rightarrow> nat \<Rightarrow> (int \<times> nat \<times> int) option" where
  "shortest_digits 0 x n k = None"
| "shortest_digits (Suc f) x n k =
     (case filter (reads_back x k) (digit_candidates x n k) of
        [] \<Rightarrow> shortest_digits f x n (Suc k)
      | c # cs \<Rightarrow> Some (fst c, k, snd c))"

definition format_number :: "int \<Rightarrow> nat \<Rightarrow> int \<Rightarrow> string" where
  "format_number n k s =
     (let ds = show_nat (nat s)
      in if - 5 \<le> n \<and> n \<le> 21 then
           (if int k \<le> n then ds @ replicate (nat (n - int k)) (CHR ''0'')
            else if 0 < n then take (nat n) ds @ ''.'' @ drop (nat n) ds
            else ''0.'' @ replicate (nat (- n)) (CHR ''0'') @ ds)
         else
           (let e = n - 1;
                c = (if 0 \<le> e then ''+'' else ''-'');
                es = show_nat (nat \<bar>e\<bar>)
            in if k = 1 then ds @ ''e'' @ c @ es
               else take 1 ds @ ''.'' @ drop 1 ds @ ''e'' @ c @ es))"

definition show_pos :: "rat \<Rightarrow> string" where
  "show_pos x =
     (let n = decimal_exponent x
      in case shortest_digits (nat (n + 1074) + 18) x n 1 of
           None \<Rightarrow> []
         | Some (n', k, s) \<Rightarrow> format_number n' k s)"

definition show_num :: "rat \<Rightarrow> string" where
  "show_num x = (if x = 0 then ''0'' else if x < 0 then CHR ''-'' # show_pos (- x) else show_pos x)"

subsection \<open>Static tables\<close>

definition ERA_SEQ :: "string list" where
  "ERA_SEQ = [''Bronze Age'', ''Iron Age'', ''Roman Age'', ''Medievil Age'', ''Electric Age'',
     ''Modern Age'']"

definition mk_weapon :: "int \<Rightarrow> int \<Rightarrow> string \<Rightarrow> int \<Rightarrow> int \<Rightarrow> Weapon" where
  "mk_weapon i e n p d = \<lparr>wid = i, era = e, wname = n, wprice = p, damage = d\<rparr>"

definition WEAPONS :: "Weapon list" where
  "WEAPONS =
    [mk_weapon 1 1 ''Pebble'' 1000 2,
     mk_weapon 2 1 ''Stone'' 5000 5,
     mk_weapon 3 1 ''Rock'' 7500 7,
     mk_weapon 4 1 ''Chiselled Stone'' 12000 12,
     mk_weapon 5 1 ''Sharpened Rock'' 16000 15,
     mk_weapon 1 3 ''Iron Spear'' 165000 34,
     mk_weapon 2 3 ''Steel Sword'' 200000 38,
     mk_weapon 3 3 ''Lance'' 220000 42,
     mk_weapon 4 3 ''Axe'' 235000 46,
     mk_weapon 5 3 ''Bow'' 260000 50,
     mk_weapon 1 5 ''Socketed Axe'' 30000 17,
     mk_weapon 2 5 ''Dagger'' 45000 20,
     mk_weapon 3 5 ''Sickle Sword'' 60000 24,
     mk_weapon 4 5 ''Reinforced Axe'' 90000 27,
     mk_weapon 5 5 ''Dead Oak Bow'' 120000 30,
     mk_weapon 1 6 ''Glock'' 1045000 98,
     mk_weapon 2 6 ''Uzi'' 1100000 100,
     mk_weapon 3 6 ''Maxim Gun'' 1150000 102,
     mk_weapon 4 6 ''AK-47'' 1200000 104,
     mk_weapon 5 6 ''M1 Garand'' 1300000 106,
     mk_weapon 1 7 ''Composite Knife'' 9000 75,
     mk_weapon 2 7 ''Smartsteel Katana'' 12000 95,
     mk_weapon 3 7 ''Laser Saber'' 20000 120]"

definition mk_item :: "int \<Rightarrow> string \<Rightarrow> int \<Rightarrow> InvKey \<Rightarrow> Item" where
  "mk_item i n p v = \<lparr>item_id = i, item_name = n, item_price = p, item_var = v\<rparr>"

definition POTIONS :: "Item list" where
  "POTIONS =
    [mk_item 1 ''Health Potion'' 500 Khpotion,
     mk_item 2 ''Mana Potion'' 750 Kmpotion,
     mk_item 3 ''Stamina Potion'' 1000 Kspotion,
     mk_item 4 ''Damage Potion'' 1500 Kdpotion,
     mk_item 5 ''Lightning Potion'' 2000 Klightning_potion,
     mk_item 6 ''Sleep Potion'' 1800 Ksleep_potion,
     mk_item 7 ''Poison Potion'' 1700 Kpoison_potion]"

definition FOOD :: "Item list" where
  "FOOD =
    [mk_item 1 ''Bread'' 20 Kbread,
     mk_item 2 ''Meat'' 50 Kmeat,
     mk_item 3 ''Fruit'' 30 Kfruit,
     mk_item 4 ''Cheese'' 40 Kcheese]"

datatype Difficulty = EASY | MEDIUM | HARD

fun ENEMY :: "Difficulty \<Rightarrow> EnemyCfg" where
  "ENEMY EASY =
     \<lparr>health = 100, damage_min = 2, damage_max = 7, coins_min = 50, coins_max = 150\<rparr>"
| "ENEMY MEDIUM =
     \<lparr>health = 200, damage_min = 7, damage_max = 12, coins_min = 100, coins_max = 500\<rparr>"
| "ENEMY HARD =
     \<lparr>health = 300, damage_min = 10, damage_max = 20, coins_min = 150, coins_max = 800\<rparr>"

datatype Rarity = Common | Rare | Epic

record MerchantWeapon =
  mw_name :: string
  mw_bonus :: int
  mw_price :: int
  mw_rarity :: Rarity

definition mk_mw :: "string \<Rightarrow> int \<Rightarrow> int \<Rightarrow> Rarity \<Rightarrow> MerchantWeapon" where
  "mk_mw n b p r = \<lparr>mw_name = n, mw_bonus = b, mw_price = p, mw_rarity = r\<rparr>"

text \<open>
  Two names of the Roman Age catalogue contain the character U+2019; a \<open>string\<close> here is
  a list of bytes, so the character appears as its three UTF-8 bytes.
\<close>

definition apostrophe :: string where
  "apostrophe = [CHR 0xE2, CHR 0x80, CHR 0x99]"

definition MERCHANT_BY_ERA :: "(string \<times> MerchantWeapon list) list" where
  "MERCHANT_BY_ERA =
    [(''Stone Age'',
       [mk_mw ''Sharpened Bone'' 15 600 Common,
        mk_mw ''Jagged Flint Axe'' 20 1200 Rare,
        mk_mw ''Mammoth Fang Blade'' 30 2000 Epic]),
     (''Bronze Age'',
       [mk_mw ''Bronze Shortblade'' 22 1400 Common,
        mk_mw ''Fire-Hardened Spear'' 30 2400 Rare,
        mk_mw ''Sun-Kissed Dagger'' 38 3500 Epic]),
     (''Iron Age'',
       [mk_mw ''Iron Cleaver'' 35 3000 Common,
        mk_mw ''Spiked Mace'' 42 4000 Rare,
        mk_mw ''Molten Iron Blade'' 52 5500 Epic]),
     (''Roman Age'',
       [mk_mw (''Legionnaire'' @ apostrophe @ ''s Gladius'') 40 3500 Common,
        mk_mw ''Colosseum Cutter'' 50 5000 Rare,
        mk_mw (''Centurion'' @ apostrophe @ ''s Edge'') 65 7500 Epic]),
     (''Medievil Age'',
       [mk_mw ''Crusader Sword'' 50 5000 Common,
        mk_mw ''Dragonsteel Falchion'' 60 7000 Rare,
        mk_mw ''Vampire Slayer'' 80 10000 Epic]),
     (''Electric Age'',
       [mk_mw ''Insulated Cutter'' 65 7000 Common,
        mk_mw ''Arc Blade'' 80 10000 Rare,
        mk_mw ''Tesla Edge'' 100 15000 Epic]),
     (''Modern Age'',
       [mk_mw ''Composite Tactical Knife'' 75 9000 Common,
        mk_mw ''Smartsteel Katana'' 95 12000 Rare,
        mk_mw ''Prototype Laser Saber'' 120 20000 Epic])]"

subsection \<open>The initial state\<close>

definition mk_policy :: "string \<Rightarrow> Policy" where
  "mk_policy d = \<lparr>locked = True, active = False, desc = d\<rparr>"

text \<open>\<open>initialState\<close> draws \<open>death_day\<close> once; \<open>u\<close> is the value of that call.\<close>

definition initialState :: "rat \<Rightarrow> State" where
  "initialState u =
    \<lparr>name = ''kingdom name'',
     day = 1,
     death_day = rand 80 150 u,
     money = 999990,
     exmoney = 5000,
     pmoney = 0,
     people = 50,
     maxpeople = 50,
     happiness = 50,
     phealth = 100,
     maxphealth = 100,
     strength = 3,
     maxstrength = 3,
     ehealth = 100,
     inventory =
       \<lparr>hpotion = 0, dpotion = 0, mpotion = 0, spotion = 0, lightning_potion = 0,
        sleep_potion = 0, poison_potion = 0, bread = 10, meat = 0, fruit = 0, cheese = 0\<rparr>,
     currentEra = ''Stone Age'',
     currentSword = ''None'',
     minDmg = 5,
     maxDmg = 15,
     wfight = 0,
     lfight = 0,
     merchant_relationship = 0,
     merchant_weapon_log = [],
     last_merchant_offer_type = None,
     number = - 1,
     owned_weapon = [(1, 0), (2, 0), (3, 0), (4, 0), (5, 0), (6, 0), (7, 0)],
     policies =
       [(''Universal Tax'', mk_policy ''Gain more tax money, but lower happiness.''),
        (''Charity Relief'', mk_policy ''Lose money per day to boost happiness.''),
        (''Royal Festival'', mk_policy ''Auto-celebrates a festival every 5 days.''),
        (''Food Rationing'', mk_policy ''Reduce food consumption, reduce happiness.''),
        (''Open Borders'', mk_policy ''Chance for more migrants, but occasional unrest.''),
        (''Public Health'', mk_policy ''Reduces sickness, small gold cost daily.''),
        (''Work Tax Rebate'', mk_policy ''Boost worker morale, costs coins.''),
        (''Electric Welfare'', mk_policy ''Auto-fixes disasters. Electric+ only.'')],
     logs = [],
     pendingMerchant = None,
     fight = \<lparr>cfg = None, stunned = False, poisonTurns = 0\<rparr>\<rparr>"

subsection \<open>The log\<close>

text \<open>
  \<open>appendLog\<close> passes an updater to \<open>set\<close>; \<open>append_entry\<close> is that updater. The new entry
  takes the identifier after the last one and the log keeps its last 600 entries
  (\<open>slice(-600)\<close>).
\<close>

definition slice_last :: "nat \<Rightarrow> 'a list \<Rightarrow> 'a list" where
  "slice_last n xs = drop (length xs - n) xs"

definition append_entry :: "string \<Rightarrow> Tag \<Rightarrow> State \<Rightarrow> State" where
  "append_entry txt tg prev =
     (let nextLogs = logs prev @
        [\<lparr>ltext = txt, ltag = tg, lid = (if logs prev \<noteq> [] then lid (last (logs prev)) + 1 else 1)\<rparr>]
      in prev\<lparr>logs := slice_last 600 nextLogs\<rparr>)"

subsection \<open>State updates\<close>

text \<open>
  A handler of the \<open>App\<close> component runs against the rendered state \<open>s\<close>. Each call
  \<open>set(f)\<close> puts the updater \<open>f\<close> in a queue; when the handler has returned, React renders
  the component and applies the queued updaters in order, each to the state left by the
  one before it (\<open>dispatch\<close>). Some updaters of the source call \<open>Math.random()\<close> and call
  \<open>set\<close> again while they run (\<open>appendLog\<close>, and the settlement of a fight): those inner
  updates never draw or nest further, they are state functions, and during a render they
  are applied after every updater the handler queued, in the order of their calls. An
  updater that reads a property of \<open>undefined\<close> throws a \<open>TypeError\<close>; that outcome is the
  value \<open>None\<close>.

  When the component has no update pending from the last render (for instance after a
  click on a tab of the shop, which renders a child only), React computes the first
  \<open>set(f)\<close> of a handler at the call itself: \<open>f\<close> runs at once on the rendered state, with
  the random values of that moment, and its result is stored with the queued update.
  The calls of \<open>set\<close> that \<open>f\<close> makes while it runs are queued before \<open>f\<close>'s own update, and
  the render replaces whatever they produced by the stored result: the inner updates of
  the first updater are lost. Which of the two ways a handler is run depends on the
  renders before it; \<open>dispatch_eager\<close> is the second way for a handler whose own draws
  all come before its first \<open>set\<close>, or whose first updater draws nothing. No updater of
  the source returns its argument itself, so only the first \<open>set\<close> of a handler can be
  computed at the call.
\<close>

type_synonym inner_update = "State \<Rightarrow> State"

type_synonym updater = "State \<Rightarrow> rng \<Rightarrow> (State \<times> inner_update list \<times> rng) option"

definition set_state :: "(State \<Rightarrow> State) \<Rightarrow> updater" where
  "set_state f = (\<lambda>prev g. Some (f prev, [], g))"

definition appendLog :: "string \<Rightarrow> Tag \<Rightarrow> updater" where
  "appendLog txt tg = set_state (append_entry txt tg)"

fun run_queue :: "updater list \<Rightarrow> inner_update list \<Rightarrow> State \<Rightarrow> rng \<Rightarrow> (State \<times> rng) option"
  where
  "run_queue [] inner s g = Some (fold (\<lambda>f st. f st) inner s, g)"
| "run_queue (u # us) inner s g =
     (case u s g of
        None \<Rightarrow> None
      | Some (s', nested, g') \<Rightarrow> run_queue us (inner @ nested) s' g')"

text \<open>
  A handler is the list of updaters it queues, together with the random values left
  after the draws of its own body; \<open>None\<close> is a \<open>TypeError\<close> thrown by the body.
\<close>

type_synonym handler = "State \<Rightarrow> rng \<Rightarrow> (updater list \<times> rng) option"

definition dispatch :: "handler \<Rightarrow> State \<Rightarrow> rng \<Rightarrow> (State \<times> rng) option" where
  "dispatch h s g =
     (case h s g of
        None \<Rightarrow> None
      | Some (queue, g') \<Rightarrow> run_queue queue [] s g')"


subsection \<open>Merchant pricing\<close>

text \<open>
  \<open>discountedPrice\<close> reads \<open>merchant_relationship\<close> from the rendered state \<open>s\<close> and
  returns the pair \<open>(final, discPct)\<close>. The quotient \<open>discPct / 100\<close> and the product
  \<open>base * (discPct / 100)\<close> are binary64 operations.
\<close>

definition discountedPrice :: "State \<Rightarrow> int \<Rightarrow> int \<times> int" where
  "discountedPrice s base =
     (let discPct = merchant_relationship s * 6;
          disc = \<lfloor>round_double (of_int base * round_double (of_int discPct / 100))\<rfloor>
      in (base - disc, discPct))"

subsection \<open>Buying from the merchant\<close>

definition buyMerchant :: handler where
  "buyMerchant s g =
     (case pendingMerchant s of
        None \<Rightarrow> Some ([], g)
      | Some p \<Rightarrow>
          if money s < of_int (offer_price p)
          then Some ([appendLog ''You cannot afford it.'' Warn], g)
          else
            (case p of
               WeaponOffer pname pbonus pprice \<Rightarrow>
                 Some
                  ([set_state (\<lambda>prev. prev
                      \<lparr>money := round_double (money prev - of_int pprice),
                       minDmg := 5 + pbonus,
                       maxDmg := 15 + pbonus,
                       currentSword := pname @ '' (+'' @ show_int pbonus @ '' DMG)'',
                       merchant_weapon_log :=
                         AList.update (currentEra prev) True (merchant_weapon_log prev),
                       merchant_relationship := min 5 (merchant_relationship prev + 1),
                       pendingMerchant := None\<rparr>),
                    appendLog (''You purchased '' @ pname @ ''.'') Merchant], g)
             | UniqueOffer pname peffect pvalue pprice \<Rightarrow>
                 Some
                  ([set_state (\<lambda>prev.
                      let happiness1 =
                            (if peffect = Some Happiness then clamp (happiness prev + 5) 0 100
                             else happiness prev);
                          maxstrength1 =
                            (if peffect = Some Maxstrength then maxstrength prev + 1
                             else maxstrength prev)
                      in prev
                        \<lparr>money := round_double (money prev - of_int pprice),
                         happiness := happiness1,
                         maxstrength := maxstrength1,
                         merchant_relationship := min 5 (merchant_relationship prev + 1),
                         pendingMerchant := None\<rparr>),
                    appendLog (''You bought '' @ pname @ ''.'') Merchant], g)))"

text \<open>The Dismiss button of the merchant tab.\<close>

definition dismissMerchant :: handler where
  "dismissMerchant s g = Some ([set_state (\<lambda>prev. prev\<lparr>pendingMerchant := None\<rparr>)], g)"

subsection \<open>The shop\<close>

fun inv_get :: "InvKey \<Rightarrow> Inventory \<Rightarrow> rat" where
  "inv_get Khpotion i = hpotion i"
| "inv_get Kdpotion i = dpotion i"
| "inv_get Kmpotion i = mpotion i"
| "inv_get Kspotion i = spotion i"
| "inv_get Klightning_potion i = lightning_potion i"
| "inv_get Ksleep_potion i = sleep_potion i"
| "inv_get Kpoison_potion i = poison_potion i"
| "inv_get Kbread i = bread i"
| "inv_get Kmeat i = meat i"
| "inv_get Kfruit i = fruit i"
| "inv_get Kcheese i = cheese i"

fun inv_set :: "InvKey \<Rightarrow> rat \<Rightarrow> Inventory \<Rightarrow> Inventory" where
  "inv_set Khpotion v i = i\<lparr>hpotion := v\<rparr>"
| "inv_set Kdpotion v i = i\<lparr>dpotion := v\<rparr>"
| "inv_set Kmpotion v i = i\<lparr>mpotion := v\<rparr>"
| "inv_set Kspotion v i = i\<lparr>spotion := v\<rparr>"
| "inv_set Klightning_potion v i = i\<lparr>lightning_potion := v\<rparr>"
| "inv_set Ksleep_potion v i = i\<lparr>sleep_potion := v\<rparr>"
| "inv_set Kpoison_potion v i = i\<lparr>poison_potion := v\<rparr>"
| "inv_set Kbread v i = i\<lparr>bread := v\<rparr>"
| "inv_set Kmeat v i = i\<lparr>meat := v\<rparr>"
| "inv_set Kfruit v i = i\<lparr>fruit := v\<rparr>"
| "inv_set Kcheese v i = i\<lparr>cheese := v\<rparr>"

text \<open>
  The quantity field of a shop row holds \<open>Math.max(1, Number(value || 1))\<close>: the typed
  decimal \<open>q\<close> becomes a binary64 value, and anything below 1 becomes 1. No rounding to a
  whole number takes place.
\<close>

definition shop_qty :: "rat \<Rightarrow> rat" where
  "shop_qty q = max 1 (round_double q)"

definition buyStack :: "InvKey \<Rightarrow> int \<Rightarrow> rat \<Rightarrow> string \<Rightarrow> handler" where
  "buyStack key price qty iname s g =
     (if qty \<le> 0 then Some ([], g)
      else
        let total = round_double (of_int price * qty)
        in if money s < total then Some ([appendLog ''Not enough coins.'' Warn], g)
           else
             Some
              ([set_state (\<lambda>prev. prev
                  \<lparr>money := round_double (money prev - total),
                   inventory :=
                     inv_set key (round_double (inv_get key (inventory prev) + qty))
                       (inventory prev)\<rparr>),
                appendLog (''Purchased '' @ show_num qty @ '' '' @ iname @ ''.'') Good], g))"

definition buyWeapon :: "int \<Rightarrow> int \<Rightarrow> handler" where
  "buyWeapon wera wwid s g =
     (case find (\<lambda>x. era x = wera \<and> wid x = wwid) WEAPONS of
        None \<Rightarrow> Some ([], g)
      | Some w \<Rightarrow>
          if wwid \<le> (case map_of (owned_weapon s) wera of Some n \<Rightarrow> n | None \<Rightarrow> 0)
          then Some ([appendLog ''That weapon is locked.'' Muted], g)
          else if money s < of_int (wprice w)
          then Some ([appendLog ''Not enough coins.'' Warn], g)
          else
            Some
             ([set_state (\<lambda>prev. prev
                 \<lparr>money := round_double (money prev - of_int (wprice w)),
                  owned_weapon := AList.update wera wwid (owned_weapon prev),
                  minDmg := 5 + damage w,
                  maxDmg := 15 + damage w,
                  currentSword := wname w @ '' (+'' @ show_int (damage w) @ '' DMG)''\<rparr>),
               appendLog (''Purchased '' @ wname w @ ''.'') Good], g))"

subsection \<open>Combat\<close>

text \<open>
  \<open>fightPush\<close> writes to the battle overlay of the page, not to the state, and is left
  out. \<open>startFight\<close> also opens the overlay.
\<close>

definition startFight :: "Difficulty \<Rightarrow> handler" where
  "startFight diff s g =
     Some
      ([set_state (\<lambda>prev. prev
          \<lparr>ehealth := health (ENEMY diff),
           phealth := 100,
           fight := \<lparr>cfg = Some (ENEMY diff), stunned = False, poisonTurns = 0\<rparr>\<rparr>)], g)"

definition poison_tick :: "State \<Rightarrow> State" where
  "poison_tick prev =
     (let ehealth0 = ehealth prev;
          poisonTurns0 = poisonTurns (fight prev)
      in if poisonTurns0 > 0 \<and> ehealth0 > 0
         then prev\<lparr>ehealth := max 0 (ehealth0 - 5),
                   fight := (fight prev)\<lparr>poisonTurns := poisonTurns0 - 1\<rparr>\<rparr>
         else prev\<lparr>ehealth := ehealth0,
                   fight := (fight prev)\<lparr>poisonTurns := poisonTurns0\<rparr>\<rparr>)"

definition updateFightBars :: updater where
  "updateFightBars = set_state poison_tick"

text \<open>
  The last updater of \<open>playerAction\<close>: it copies \<open>prev\<close>, runs \<open>post\<close> on the copy and
  returns it. \<open>post\<close> draws the reward and calls \<open>set\<close> for the settlement.
\<close>

definition settle :: "EnemyCfg \<Rightarrow> updater" where
  "settle c prev g =
     (let ended = (ehealth prev \<le> 0 \<or> phealth prev \<le> 0)
      in if ended then
           (if ehealth prev \<le> 0 then
              let reward = rand (coins_min c) (coins_max c) (shd g)
              in Some (prev,
                   [\<lambda>p. p\<lparr>money := round_double (money p + of_int reward),
                          wfight := wfight p + 1\<rparr>], stl g)
            else Some (prev, [\<lambda>p. p\<lparr>lfight := lfight p + 1\<rparr>], g))
         else Some (prev, [], g))"

text \<open>
  The part of \<open>playerAction\<close> after the choice of the action: the player's damage, the
  enemy's turn, the stun flag, the poison tick and the settlement.
\<close>

definition fight_round :: "EnemyCfg \<Rightarrow> bool \<Rightarrow> int \<Rightarrow> State \<Rightarrow> rng \<Rightarrow> updater list \<times> rng" where
  "fight_round c stunnedNow pdamage s g =
     (let strike_q =
            (if pdamage \<ge> 0
             then [set_state (\<lambda>prev. prev\<lparr>ehealth := max 0 (ehealth prev - pdamage)\<rparr>)]
             else []);
          (enemy_q, g1) =
            (if stunned (fight s)
             then ([set_state (\<lambda>prev. prev\<lparr>fight := (fight prev)\<lparr>stunned := False\<rparr>\<rparr>)], g)
             else
               let raw = rand (damage_min c) (damage_max c) (shd g);
                   edmg = (if pdamage < 0 then max 0 (raw + pdamage) else raw)
               in ([set_state (\<lambda>prev. prev\<lparr>phealth := max 0 (phealth prev - edmg)\<rparr>)], stl g));
          stun_q =
            (if stunnedNow
             then [set_state (\<lambda>prev. prev\<lparr>fight := (fight prev)\<lparr>stunned := True\<rparr>\<rparr>)]
             else [])
      in (strike_q @ enemy_q @ stun_q @ [updateFightBars, settle c], g1))"

datatype Action = Strike | Block | Heal | Dmg_pot | Lightning | Sleep | Poison

definition playerAction :: "Action \<Rightarrow> handler" where
  "playerAction action s g =
     (case cfg (fight s) of
        None \<Rightarrow> Some ([], g)
      | Some c \<Rightarrow>
          (case action of
             Strike \<Rightarrow>
               let pdamage = rand (minDmg s) (maxDmg s) (shd g)
               in Some (fight_round c False pdamage s (stl g))
           | Block \<Rightarrow>
               let blk = rand 10 30 (shd g);
                   pdamage = - blk
               in Some (fight_round c False pdamage s (stl g))
           | Heal \<Rightarrow>
               Some
                ((if hpotion (inventory s) > 0
                  then [set_state (\<lambda>prev. prev
                          \<lparr>phealth := 100,
                           inventory := (inventory prev)\<lparr>hpotion := round_double (hpotion (inventory prev) - 1)\<rparr>\<rparr>)]
                  else []) @ [updateFightBars], g)
           | Dmg_pot \<Rightarrow>
               if dpotion (inventory s) > 0 then
                 let bonus = 10;
                     pdamage = rand (minDmg s) (maxDmg s) (shd g) + bonus;
                     (q, g1) = fight_round c False pdamage s (stl g)
                 in Some
                     (set_state (\<lambda>prev. prev
                        \<lparr>inventory := (inventory prev)\<lparr>dpotion := round_double (dpotion (inventory prev) - 1)\<rparr>\<rparr>)
                      # q, g1)
               else Some ([], g)
           | Lightning \<Rightarrow>
               Some
                ((if lightning_potion (inventory s) > 0
                  then [set_state (\<lambda>prev. prev
                          \<lparr>inventory := (inventory prev)
                             \<lparr>lightning_potion := round_double (lightning_potion (inventory prev) - 1)\<rparr>\<rparr>)]
                  else []) @ [updateFightBars], g)
           | Sleep \<Rightarrow>
               Some
                ((if sleep_potion (inventory s) > 0
                  then [set_state (\<lambda>prev. prev
                          \<lparr>inventory := (inventory prev)
                             \<lparr>sleep_potion := round_double (sleep_potion (inventory prev) - 1)\<rparr>\<rparr>)]
                  else []) @ [updateFightBars], g)
           | Poison \<Rightarrow>
               Some
                ((if poison_potion (inventory s) > 0
                  then [set_state (\<lambda>prev. prev
                          \<lparr>fight := (fight prev)\<lparr>poisonTurns := 3\<rparr>,
                           inventory := (inventory prev)
                             \<lparr>poison_potion := round_double (poison_potion (inventory prev) - 1)\<rparr>\<rparr>)]
                  else []) @ [updateFightBars], g)))"

subsection \<open>The merchant event\<close>

text \<open>
  \<open>index_at xs u\<close> is \<open>xs[Math.floor(u * xs.length)]\<close>; outside the list JavaScript
  yields \<open>undefined\<close>, here \<open>None\<close>. Every use reads a property of the result at once,
  which throws on \<open>undefined\<close>.
\<close>

definition index_at :: "'a list \<Rightarrow> rat \<Rightarrow> 'a option" where
  "index_at xs u =
     (let i = \<lfloor>round_double (u * of_int (int (length xs)))\<rfloor>
      in if 0 \<le> i \<and> i < int (length xs) then Some (xs ! nat i) else None)"

definition rarity_name :: "Rarity \<Rightarrow> string" where
  "rarity_name r = (case r of Common \<Rightarrow> ''Common'' | Rare \<Rightarrow> ''Rare'' | Epic \<Rightarrow> ''Epic'')"

definition rare_items :: "MerchantOffer list" where
  "rare_items =
     [UniqueOffer ''Golden Cheese'' (Some Happiness) 5 700,
      UniqueOffer ''Ancient Scroll'' (Some Maxstrength) 1 1000,
      UniqueOffer ''Map Fragment'' None 0 800]"

definition weighted_pool :: "MerchantWeapon list \<Rightarrow> MerchantWeapon list" where
  "weighted_pool pool =
     concat (map (\<lambda>w. replicate
        (if mw_rarity w = Common then 3 else if mw_rarity w = Rare then 2 else 1) w) pool)"

definition merchant_event :: handler where
  "merchant_event s g =
     (let in_catalog = (map_of MERCHANT_BY_ERA (currentEra s) \<noteq> None
                        \<and> map_of (merchant_weapon_log s) (currentEra s) = None);
          offerType0 =
            (if in_catalog \<and> rand 1 100 (shd g) \<le> 3
                 \<and> last_merchant_offer_type s \<noteq> Some ''weapon''
             then ''weapon'' else ''unique'');
          g1 = (if in_catalog then stl g else g);
          offerType = (if Some offerType0 = last_merchant_offer_type s then ''unique'' else offerType0)
      in if offerType = ''weapon'' then
           (case map_of MERCHANT_BY_ERA (currentEra s) of
              None \<Rightarrow> None
            | Some pool \<Rightarrow>
                (case index_at (weighted_pool pool) (shd g1) of
                   None \<Rightarrow> None
                 | Some sel \<Rightarrow>
                     let (final, discPct) = discountedPrice s (mw_price sel)
                     in Some
                         ([appendLog
                             (''Merchant offers a '' @ rarity_name (mw_rarity sel) @ '' weapon: ''
                                @ mw_name sel @ '' (+'' @ show_int (mw_bonus sel) @ '' DMG). Price ''
                                @ show_int final @ '' coins ('' @ show_int discPct @ ''% off).'')
                             Merchant,
                           set_state (\<lambda>prev. prev
                             \<lparr>pendingMerchant :=
                                Some (WeaponOffer (mw_name sel) (mw_bonus sel) final)\<rparr>),
                           set_state (\<lambda>prev. prev\<lparr>last_merchant_offer_type := Some ''weapon''\<rparr>)],
                          stl g1)))
         else
           (let rare = filter (\<lambda>x. Some (offer_name x) \<noteq> last_merchant_offer_type s) rare_items
            in case index_at rare (shd g1) of
                 None \<Rightarrow> None
               | Some sel \<Rightarrow>
                   let (final, discPct) = discountedPrice s (offer_price sel)
                   in Some
                       ([appendLog
                           (''Merchant offers '' @ offer_name sel @ ''. Price '' @ show_int final
                              @ '' coins.'')
                           Merchant,
                         set_state (\<lambda>prev. prev
                           \<lparr>pendingMerchant :=
                              Some (UniqueOffer (offer_name sel) (offer_effect sel) (offer_value sel)
                                final)\<rparr>),
                         set_state (\<lambda>prev. prev\<lparr>last_merchant_offer_type := Some (offer_name sel)\<rparr>)],
                        stl g1)))"

subsection \<open>The random event\<close>

text \<open>
  The protest updater draws its two amounts and calls \<open>appendLog\<close> while it runs. The
  updater of a lost fight against the rogue faction draws the casualties while it runs.
\<close>

definition protest_update :: updater where
  "protest_update prev g =
     (let loss = rand 100 300 (shd g);
          happinessLoss = rand 5 15 (shd (stl g))
      in Some
          (prev\<lparr>pmoney := pmoney prev + 1,
                money := max 0 (round_double (money prev - of_int loss)),
                happiness := clamp (happiness prev - happinessLoss) 0 100\<rparr>,
           [append_entry
              (''Protest in the streets. Lost '' @ show_int loss @ '' coins. Happiness reduced.'')
              Warn],
           stl (stl g)))"

definition rogue_defeat_update :: "int \<Rightarrow> updater" where
  "rogue_defeat_update loss prev g =
     Some
      (prev\<lparr>people := max 0 (people prev - rand 3 10 (shd g)),
            money := max 0 (round_double (money prev - of_int loss))\<rparr>,
       [], stl g)"

text \<open>
  The policy unlock spreads \<open>prev.policies[key]\<close>. The key comes from the keys of the
  rendered state, and no handler removes a policy. Were the key missing, the spread would
  build an entry without \<open>active\<close> and \<open>desc\<close>, a value outside \<open>Policy\<close>: the model has
  \<open>None\<close> there.
\<close>

definition unlock_update :: "string \<Rightarrow> updater" where
  "unlock_update key prev g =
     (case map_of (policies prev) key of
        None \<Rightarrow> None
      | Some pol \<Rightarrow>
          Some (prev\<lparr>policies := AList.update key (pol\<lparr>locked := False\<rparr>) (policies prev)\<rparr>, [], g))"

definition locked_keys :: "State \<Rightarrow> string list" where
  "locked_keys s =
     filter (\<lambda>k. case map_of (policies s) k of Some pol \<Rightarrow> locked pol | None \<Rightarrow> False)
       (map fst (policies s))"

definition random_event :: handler where
  "random_event s g =
     (let roll = rand 1 100 (shd g);
          g1 = stl g
      in if roll \<le> 10 then Some ([protest_update], g1)
         else if roll \<le> 20 then
           (let outcome = rand 1 10 (shd g1);
                g2 = stl g1
            in if outcome \<le> 6 then
                 (let reward = rand 300 800 (shd g2)
                  in Some
                      ([set_state (\<lambda>prev. prev
                          \<lparr>money := round_double (money prev + of_int reward)\<rparr>),
                        appendLog
                          (''You repelled a rogue faction and looted '' @ show_int reward
                             @ '' coins.'') Good],
                       stl g2))
               else
                 (let loss = rand 100 400 (shd g2)
                  in Some
                      ([rogue_defeat_update loss,
                        appendLog
                          (''You lost to a rogue faction. People and '' @ show_int loss
                             @ '' coins lost.'') Warn],
                       stl g2)))
         else if roll \<le> 30 then merchant_event s g1
         else if roll \<le> 40 then
           (if shd g1 < 1 / 2 then
              (let lost = rand 5 15 (shd (stl g1))
               in Some
                   ([set_state (\<lambda>prev. prev
                       \<lparr>people := max 0 (people prev - lost),
                        inventory := (inventory prev)
                          \<lparr>bread := max 0 (round_double (bread (inventory prev) - of_int lost))\<rparr>,
                        happiness := clamp (happiness prev - 10) 0 100\<rparr>),
                     appendLog
                       (''Famine struck. '' @ show_int lost
                          @ '' people died and food supplies dwindled.'') Warn],
                    stl (stl g1)))
            else
              (let loss = rand 10 20 (shd (stl g1))
               in Some
                   ([set_state (\<lambda>prev. prev
                       \<lparr>inventory := (inventory prev)
                          \<lparr>bread := max 0 (round_double (bread (inventory prev) - of_int loss))\<rparr>,
                        happiness := clamp (happiness prev - 5) 0 100\<rparr>),
                     appendLog
                       (''Flooding damaged crops. '' @ show_int loss @ '' bread lost.'') Warn],
                    stl (stl g1))))
         else if roll \<le> 50 then
           Some
            ([set_state (\<lambda>prev. prev\<lparr>happiness := clamp (happiness prev + 10) 0 100\<rparr>),
              appendLog ''A royal decision pleased the people. Happiness rises.'' Good], g1)
         else if roll \<le> 55 then
           (if shd g1 < 1 / 2 then
              Some
               ([set_state (\<lambda>prev. prev
                   \<lparr>happiness := clamp (happiness prev - 10) 0 100,
                    money := max 0 (round_double (money prev - 200))\<rparr>),
                 appendLog ''A cursed relic brought misfortune.'' Warn], stl g1)
            else
              Some
               ([set_state (\<lambda>prev. prev
                   \<lparr>happiness := clamp (happiness prev + 10) 0 100,
                    money := round_double (money prev + 500)\<rparr>),
                 appendLog ''An enchanted relic blessed the land. +500 coins.'' Good], stl g1))
         else if roll \<le> 60 then
           (let lockedks = locked_keys s
            in if lockedks \<noteq> [] then
                 (case index_at lockedks (shd g1) of
                    None \<Rightarrow> None
                  | Some key \<Rightarrow>
                      (case map_of (policies s) key of
                         None \<Rightarrow> None
                       | Some pol \<Rightarrow>
                           Some
                            ([unlock_update key,
                              appendLog (''New policy emerged: '' @ key @ ''. '' @ desc pol) System],
                             stl g1)))
               else Some ([], g1))
         else if roll \<le> 70 then
           (let bonus = rand 10 30 (shd g1)
            in Some
                ([set_state (\<lambda>prev. prev\<lparr>happiness := clamp (happiness prev + bonus) 0 100\<rparr>),
                  appendLog
                    (''A festival boosted morale. +'' @ show_int bonus @ '' happiness.'') Good],
                 stl g1))
         else if roll \<le> 80 then
           (let coins = rand 200 600 (shd g1)
            in Some
                ([set_state (\<lambda>prev. prev\<lparr>money := round_double (money prev + of_int coins)\<rparr>),
                  appendLog (''Buried treasure found. +'' @ show_int coins @ '' coins.'') Good],
                 stl g1))
         else Some ([appendLog ''A calm day passes.'' Muted], g1))"

subsection \<open>Sleep\<close>

text \<open>
  \<open>command_sleep\<close> queues one updater and then calls \<open>random_event\<close>. The updater is
  split here into the blocks of its body, in their order. Each block works on the local
  object \<open>next\<close>, on the \<open>appendLog\<close> calls made so far and on the random values left.
  \<open>Math.floor(x * 0.75)\<close> on an integer \<open>x\<close> is the floor division \<open>(x * 3) div 4\<close>: 0.75 is a
  binary64 value and the product is exact. The bread counter may hold a fraction, so the
  shortage and its two quotients are binary64 operations.
\<close>

type_synonym work = "State \<times> inner_update list \<times> rng"

definition policy_active :: "State \<Rightarrow> string \<Rightarrow> bool option" where
  "policy_active st k = map_option active (map_of (policies st) k)"

definition sleep_food :: "State \<Rightarrow> rng \<Rightarrow> work option" where
  "sleep_food prev g =
     (case policy_active prev ''Food Rationing'' of
        None \<Rightarrow> None
      | Some rationing \<Rightarrow>
          let bread0 = bread (inventory prev);
              strength1 = maxstrength prev;
              day1 = day prev + 1;
              required_food = (if rationing then (people prev * 3) div 4 else people prev)
          in if bread0 \<ge> of_int required_food then
               Some
                (prev\<lparr>day := day1, strength := strength1,
                       inventory := (inventory prev)
                         \<lparr>bread := round_double (bread0 - of_int required_food)\<rparr>,
                       happiness := happiness prev, people := people prev\<rparr>,
                 [append_entry
                    (''You consumed '' @ show_int required_food @ '' food for your population.'')
                    Event],
                 g)
             else
               let shortage = round_double (of_int required_food - bread0);
                   happiness_loss = \<lfloor>round_double (shortage / 2)\<rfloor>;
                   people_lost = \<lfloor>round_double (shortage / 5)\<rfloor>
               in Some
                   (prev\<lparr>day := day1, strength := strength1,
                          inventory := (inventory prev)\<lparr>bread := 0\<rparr>,
                          happiness := clamp (happiness prev - happiness_loss) 0 100,
                          people := max 0 (people prev - people_lost)\<rparr>,
                    [append_entry
                       (''Food Shortage. Lost '' @ show_int people_lost @ '' people, happiness -''
                          @ show_int happiness_loss @ ''.'')
                       Warn],
                    g))"

definition sleep_daily_draw :: "work \<Rightarrow> work" where
  "sleep_daily_draw w =
     (case w of (next, lg, g) \<Rightarrow>
        let r = rand 1 100 (shd g);
            g1 = stl g
        in if r \<le> 15 then
             (let loss = rand 50 200 (shd g1)
              in (next\<lparr>money := max 0 (round_double (money next - of_int loss))\<rparr>,
                  lg @ [append_entry
                          (''Bandits raided your treasury. Lost '' @ show_int loss @ '' coins.'')
                          Warn],
                  stl g1))
           else if r \<le> 30 then
             (let gain = rand 5 15 (shd g1)
              in (next\<lparr>happiness := clamp (happiness next + gain) 0 100\<rparr>,
                  lg @ [append_entry (''Festival. Happiness +'' @ show_int gain @ ''.'') Good],
                  stl g1))
           else if r \<le> 40 then
             (let p = rand 3 10 (shd g1)
              in (next\<lparr>people := min (maxpeople next) (people next + p)\<rparr>,
                  lg @ [append_entry
                          (''Travellers joined your kingdom. +'' @ show_int p @ '' population.'')
                          Good],
                  stl g1))
           else (next, lg, g1))"

definition flavour :: "(string \<times> string) list" where
  "flavour =
     [(''Stone Age'', ''Your people are learning to craft stone tools.''),
      (''Bronze Age'', ''Metalworking begins to shape the future of your army.''),
      (''Iron Age'', ''Blacksmiths forge powerful weapons.''),
      (''Roman Age'', ''Infrastructure expands under imperial guidance.''),
      (''Medievil Age'', ''Armies are growing and the people whisper of war.''),
      (''Electric Age'', ''Inventions surge across your cities.''),
      (''Modern Age'', ''Skyscrapers rise as society industrialises.'')]"

definition sleep_flavour :: "work \<Rightarrow> work" where
  "sleep_flavour w =
     (case w of (next, lg, g) \<Rightarrow>
        let lg1 = (case map_of flavour (currentEra next) of
                     Some line \<Rightarrow> if line \<noteq> [] then lg @ [append_entry line Muted] else lg
                   | None \<Rightarrow> lg);
            lg2 = (if day next \<in> set [death_day next - 10, death_day next - 5]
                   then lg1 @ [append_entry ''You feel your age catching up to you...'' Muted]
                   else lg1)
        in (next, lg2, g))"

definition upkeep_universal_tax :: "work \<Rightarrow> work option" where
  "upkeep_universal_tax w =
     (case w of (next, lg, g) \<Rightarrow>
        (case policy_active next ''Universal Tax'' of
           None \<Rightarrow> None
         | Some on \<Rightarrow>
             if on then
               (let bonus = rand 20 50 (shd g)
                in Some
                    (next\<lparr>money := round_double (money next + of_int bonus),
                           happiness := clamp (happiness next - 2) 0 100\<rparr>,
                     lg @ [append_entry
                             (''Universal Tax active: +'' @ show_int bonus @ '' coins, -2 happiness.'')
                             System],
                     stl g))
             else Some w))"

definition upkeep_charity_relief :: "work \<Rightarrow> work option" where
  "upkeep_charity_relief w =
     (case w of (next, lg, g) \<Rightarrow>
        (case policy_active next ''Charity Relief'' of
           None \<Rightarrow> None
         | Some on \<Rightarrow>
             if on then
               (let cost = 30
                in if money next \<ge> cost then
                     Some
                      (next\<lparr>money := round_double (money next - cost),
                             happiness := clamp (happiness next + 4) 0 100\<rparr>,
                       lg @ [append_entry ''Charity Relief: -30 coins, +4 happiness.'' System],
                       g)
                   else Some w)
             else Some w))"

definition upkeep_royal_festival :: "work \<Rightarrow> work option" where
  "upkeep_royal_festival w =
     (case w of (next, lg, g) \<Rightarrow>
        (case policy_active next ''Royal Festival'' of
           None \<Rightarrow> None
         | Some on \<Rightarrow>
             if on \<and> day next mod 5 = 0 then
               Some
                (next\<lparr>happiness := clamp (happiness next + 8) 0 100\<rparr>,
                 lg @ [append_entry ''Royal Festival held: +8 happiness.'' Good],
                 g)
             else Some w))"

definition upkeep_public_health :: "work \<Rightarrow> work option" where
  "upkeep_public_health w =
     (case w of (next, lg, g) \<Rightarrow>
        (case policy_active next ''Public Health'' of
           None \<Rightarrow> None
         | Some on \<Rightarrow>
             if on then
               (if rand 1 100 (shd g) \<le> 10
                then Some
                      (next,
                       lg @ [append_entry ''Public Health prevented a disease outbreak.'' Good],
                       stl g)
                else Some (next\<lparr>happiness := clamp (happiness next + 1) 0 100\<rparr>, lg, stl g))
             else Some w))"

definition upkeep_open_borders :: "work \<Rightarrow> work option" where
  "upkeep_open_borders w =
     (case w of (next, lg, g) \<Rightarrow>
        (case policy_active next ''Open Borders'' of
           None \<Rightarrow> None
         | Some on \<Rightarrow>
             if on then
               (if rand 1 100 (shd g) \<le> 15 then
                  (let influx = rand 2 8 (shd (stl g))
                   in Some
                       (next\<lparr>people := people next + influx\<rparr>,
                        lg @ [append_entry
                                (''Open Borders: +'' @ show_int influx @ '' migrants joined.'') Good],
                        stl (stl g)))
                else Some (next, lg, stl g))
             else Some w))"

definition upkeep_electric_welfare :: "work \<Rightarrow> work option" where
  "upkeep_electric_welfare w =
     (case w of (next, lg, g) \<Rightarrow>
        (case policy_active next ''Electric Welfare'' of
           None \<Rightarrow> None
         | Some on \<Rightarrow>
             if on \<and> currentEra next = ''Electric Age'' then
               (if rand 1 100 (shd g) \<le> 20
                then Some
                      (next, lg @ [append_entry ''Electric Welfare prevented a disaster.'' Good],
                       stl g)
                else Some (next, lg, stl g))
             else Some w))"

definition sleep_upkeep :: "work \<Rightarrow> work option" where
  "sleep_upkeep w =
     Option.bind (upkeep_universal_tax w) (\<lambda>w1.
     Option.bind (upkeep_charity_relief w1) (\<lambda>w2.
     Option.bind (upkeep_royal_festival w2) (\<lambda>w3.
     Option.bind (upkeep_public_health w3) (\<lambda>w4.
     Option.bind (upkeep_open_borders w4) upkeep_electric_welfare))))"

text \<open>
  The death-day check sits between the flavour lines and the policy upkeep: when the
  new day has reached \<open>death_day\<close> the updater logs the last line and returns \<open>next\<close>
  at once.
\<close>

definition sleep_death_check :: "work \<Rightarrow> work option" where
  "sleep_death_check w =
     (case w of (next, lg, g) \<Rightarrow>
        if day next \<ge> death_day next then
          Some
           (next,
            lg @ [append_entry ''Your time has come. Your kingdom now lives on in legend.'' Danger],
            g)
        else sleep_upkeep w)"

definition sleep_update :: updater where
  "sleep_update prev g =
     Option.bind (sleep_food prev g) (\<lambda>w. sleep_death_check (sleep_flavour (sleep_daily_draw w)))"

text \<open>
  During a render the update of the night runs after the body of \<open>random_event\<close> has made
  its draws: \<open>command_sleep\<close> is the handler in that case. When the update is computed at
  the call of \<open>set\<close>, it runs first, on the random values the handler starts with, the
  lines it logs are lost, and \<open>random_event\<close> draws from what is left:
  \<open>command_sleep_eager\<close>.
\<close>

definition command_sleep :: handler where
  "command_sleep s g =
     (case random_event s g of
        None \<Rightarrow> None
      | Some (event_queue, g1) \<Rightarrow> Some (sleep_update # event_queue, g1))"

definition command_sleep_eager :: "State \<Rightarrow> rng \<Rightarrow> (State \<times> rng) option" where
  "command_sleep_eager s g =
     (case sleep_update s g of
        None \<Rightarrow> None
      | Some (s1, nested, g1) \<Rightarrow>
          (case random_event s g1 of
             None \<Rightarrow> None
           | Some (event_queue, g2) \<Rightarrow> run_queue event_queue [] s1 g2))"

subsection \<open>Tax, pay, expand\<close>

definition command_tax :: handler where
  "command_tax s g =
     (if happiness s < 1 then
        Some
         ([appendLog ''Your people were not happy and left. You became broke.'' Danger,
           set_state (\<lambda>prev. prev\<lparr>money := 0\<rparr>)], g)
      else
        let delta = rand 1 5 (shd g)
        in Some
            ([(\<lambda>prev g'. Some
                 (prev\<lparr>happiness := clamp (happiness prev - delta) 0 100,
                       money := round_double (money prev + of_int (rand 25 50 (shd g'))),
                       strength := max 0 (strength prev - 1)\<rparr>,
                  [], stl g')),
              appendLog (''You taxed the people: happiness -'' @ show_int delta @ ''.'') Warn],
             stl g))"

definition command_pay :: handler where
  "command_pay s g =
     (if people s < 1 then
        Some
         ([appendLog
             (''You have no-one left in '' @ name s @ ''. You became broke and unpopular.'') Danger,
           set_state (\<lambda>prev. prev\<lparr>money := 0\<rparr>)], g)
      else
        Some
         ([set_state (\<lambda>prev. prev
             \<lparr>money := max 0 (round_double (money prev - 5)),
              happiness := clamp (happiness prev + 5) 0 100,
              strength := max 0 (strength prev - 1)\<rparr>),
           appendLog ''You paid the people. Happiness +5.'' Good], g))"

text \<open>\<open>ERA_SEQ[number] || prev.currentEra\<close>: an index outside the array gives \<open>undefined\<close>.\<close>

definition expand_update :: updater where
  "expand_update prev g =
     (let number1 = number prev + 1;
          currentEra1 =
            (if 0 \<le> number1 \<and> number1 < int (length ERA_SEQ) \<and> ERA_SEQ ! nat number1 \<noteq> []
             then ERA_SEQ ! nat number1 else currentEra prev)
      in Some
          (prev\<lparr>money := round_double (money prev - of_int (exmoney prev)),
                exmoney := exmoney prev * 2,
                maxpeople := maxpeople prev * 2,
                number := number1,
                currentEra := currentEra1,
                maxstrength := max (maxstrength prev) 4,
                strength := max 0 (strength prev - 1)\<rparr>,
           [append_entry
              (''You advanced to '' @ currentEra1 @ ''. Max population is now ''
                 @ show_int (maxpeople prev * 2) @ ''.'') Good],
           g))"

definition command_expand :: handler where
  "command_expand s g =
     (if number s \<ge> 6 then Some ([appendLog ''You are already at the top Age.'' Muted], g)
      else if money s < of_int (exmoney s) then
        Some
         ([appendLog
             (''You need '' @ show_num (round_double (of_int (exmoney s) - money s))
                @ '' more coins to expand.'') Muted], g)
      else Some ([expand_update], g))"

subsection \<open>Policies panel\<close>

text \<open>
  The panel shows one button for each entry \<open>(name, data)\<close> of the rendered policies; the
  button of a locked policy is disabled.
\<close>

definition togglePolicy :: "string \<Rightarrow> handler" where
  "togglePolicy pname s g =
     (case map_of (policies s) pname of
        None \<Rightarrow> Some ([], g)
      | Some data \<Rightarrow>
          if locked data then Some ([], g)
          else
            Some
             ([set_state (\<lambda>prev. prev
                 \<lparr>policies := AList.update pname (data\<lparr>active := \<not> active data\<rparr>) (policies prev)\<rparr>),
               appendLog
                 (pname @ '' is now '' @ (if \<not> active data then ''ENABLED'' else ''DISABLED'') @ ''.'')
                 System], g))"

subsection \<open>Commands\<close>

text \<open>
  The buttons of the page, each with the handler it calls. A shop row passes the key,
  the price and the name of its item and the quantity of its field. A run of the game is
  a list of commands; every command is dispatched on the state the previous one left,
  with the random values that remain. \<open>dispatch_command eagerly c\<close> runs the handler of
  \<open>c\<close> in one of the two ways React may run it.
\<close>

datatype Command =
  CmdSleep
  | CmdTax
  | CmdPay
  | CmdExpand
  | CmdBuyStack Item rat
  | CmdBuyWeapon int int
  | CmdBuyMerchant
  | CmdDismissMerchant
  | CmdStartFight Difficulty
  | CmdPlayerAction Action
  | CmdTogglePolicy string

fun handler_of :: "Command \<Rightarrow> handler" where
  "handler_of CmdSleep = command_sleep"
| "handler_of CmdTax = command_tax"
| "handler_of CmdPay = command_pay"
| "handler_of CmdExpand = command_expand"
| "handler_of (CmdBuyStack it q) =
     buyStack (item_var it) (item_price it) (shop_qty q) (item_name it)"
| "handler_of (CmdBuyWeapon wera wwid) = buyWeapon wera wwid"
| "handler_of CmdBuyMerchant = buyMerchant"
| "handler_of CmdDismissMerchant = dismissMerchant"
| "handler_of (CmdStartFight diff) = startFight diff"
| "handler_of (CmdPlayerAction action) = playerAction action"
| "handler_of (CmdTogglePolicy pname) = togglePolicy pname"

fun run_commands :: "Command list \<Rightarrow> State \<Rightarrow> rng \<Rightarrow> (State \<times> rng) option" where
  "run_commands [] s g = Some (s, g)"
| "run_commands (c # cs) s g =
     (case dispatch (handler_of c) s g of
        None \<Rightarrow> None
      | Some (s', g') \<Rightarrow> run_commands cs s' g')"

text \<open>
  \<open>drawn k g g'\<close>: the random values \<open>g'\<close> are the values \<open>g\<close> after at least \<open>k\<close> draws.
\<close>

definition drawn :: "nat \<Rightarrow> rng \<Rightarrow> rng \<Rightarrow> bool" where
  "drawn k g g' = (\<exists>n \<ge> k. g' = sdrop n g)"


section \<open>The event table as the specification words it\<close>

text \<open>
  The buckets of the random event resolver with their inclusive ranges, and for each
  bucket the change it makes to the numbers of the state, in the numbers of the program.
  \<open>spec_outcome\<close> leaves the log alone; the merchant bucket stands for the merchant event
  of the source. Three buckets have two branches: the rogue faction is beaten on 1-6 of a
  draw in 1-10, famine and the cursed relic come on a unit draw below one half.
  \<open>locked_policies\<close> lists the names of the policies whose \<open>locked\<close> flag is set, in the order
  of the panel, and \<open>unlock_policy\<close> clears the flag of the policy with the given name.
\<close>

datatype Bucket =
  Protest | RogueFaction | MerchantEvent | Disaster | RoyalDecision | Relic | PolicyUnlock
  | Festival | Treasure | CalmDay

definition spec_ranges :: "(Bucket \<times> int \<times> int) list" where
  "spec_ranges =
     [(Protest, 1, 10), (RogueFaction, 11, 20), (MerchantEvent, 21, 30), (Disaster, 31, 40),
      (RoyalDecision, 41, 50), (Relic, 51, 55), (PolicyUnlock, 56, 60), (Festival, 61, 70),
      (Treasure, 71, 80), (CalmDay, 81, 100)]"

definition spec_buckets :: "int \<Rightarrow> Bucket list" where
  "spec_buckets roll = map fst (filter (\<lambda>(b, lo, hi). lo \<le> roll \<and> roll \<le> hi) spec_ranges)"

fun first_branch :: "Bucket \<Rightarrow> rng \<Rightarrow> bool" where
  "first_branch RogueFaction g = (rand 1 10 (shd g) \<le> 6)"
| "first_branch Disaster g = (shd g < 1 / 2)"
| "first_branch Relic g = (shd g < 1 / 2)"
| "first_branch b g = True"

definition locked_policies :: "State \<Rightarrow> string list" where
  "locked_policies s = map fst (filter (\<lambda>(k, pol). locked pol) (policies s))"

definition unlock_policy :: "string \<Rightarrow> Policies \<Rightarrow> Policies" where
  "unlock_policy key ps = map (\<lambda>(k, pol). if k = key then (k, pol\<lparr>locked := False\<rparr>) else (k, pol)) ps"

fun spec_outcome :: "Bucket \<Rightarrow> State \<Rightarrow> rng \<Rightarrow> (State \<times> rng) option" where
  "spec_outcome Protest s g =
     Some (s\<lparr>pmoney := pmoney s + 1,
              money := max 0 (round_double (money s - of_int (rand 100 300 (shd g)))),
              happiness := clamp (happiness s - rand 5 15 (shd (stl g))) 0 100\<rparr>, stl (stl g))"
| "spec_outcome RogueFaction s g =
     (if first_branch RogueFaction g
      then Some (s\<lparr>money := round_double (money s + of_int (rand 300 800 (shd (stl g))))\<rparr>,
                 stl (stl g))
      else Some (s\<lparr>people := max 0 (people s - rand 3 10 (shd (stl (stl g)))),
                   money := max 0 (round_double (money s - of_int (rand 100 400 (shd (stl g)))))\<rparr>,
                 stl (stl (stl g))))"
| "spec_outcome MerchantEvent s g =
     map_option (\<lambda>(s', g'). (s'\<lparr>logs := logs s\<rparr>, g')) (dispatch merchant_event s g)"
| "spec_outcome Disaster s g =
     (if first_branch Disaster g
      then Some (s\<lparr>people := max 0 (people s - rand 5 15 (shd (stl g))),
                   inventory := (inventory s)
                     \<lparr>bread := max 0 (round_double
                        (bread (inventory s) - of_int (rand 5 15 (shd (stl g)))))\<rparr>,
                   happiness := clamp (happiness s - 10) 0 100\<rparr>, stl (stl g))
      else Some (s\<lparr>inventory := (inventory s)
                     \<lparr>bread := max 0 (round_double
                        (bread (inventory s) - of_int (rand 10 20 (shd (stl g)))))\<rparr>,
                   happiness := clamp (happiness s - 5) 0 100\<rparr>, stl (stl g)))"
| "spec_outcome RoyalDecision s g =
     Some (s\<lparr>happiness := clamp (happiness s + 10) 0 100\<rparr>, g)"
| "spec_outcome Relic s g =
     (if first_branch Relic g
      then Some (s\<lparr>happiness := clamp (happiness s - 10) 0 100,
                   money := max 0 (round_double (money s - 200))\<rparr>, stl g)
      else Some (s\<lparr>happiness := clamp (happiness s + 10) 0 100,
                   money := round_double (money s + 500)\<rparr>, stl g))"
| "spec_outcome PolicyUnlock s g =
     (if locked_policies s = [] then Some (s, g)
      else
        (case index_at (locked_policies s) (shd g) of
           None \<Rightarrow> None
         | Some key \<Rightarrow> Some (s\<lparr>policies := unlock_policy key (policies s)\<rparr>, stl g)))"
| "spec_outcome Festival s g =
     Some (s\<lparr>happiness := clamp (happiness s + rand 10 30 (shd g)) 0 100\<rparr>, stl g)"
| "spec_outcome Treasure s g =
     Some (s\<lparr>money := round_double (money s + of_int (rand 200 600 (shd g)))\<rparr>, stl g)"
| "spec_outcome CalmDay s g = Some (s, g)"

text \<open>
  The tag that reflects the valence of an outcome: \<open>good\<close> for a gain (a repelled
  faction, the royal decision, the blessed relic, a festival, a treasure), \<open>warn\<close> for a
  loss (a protest, a lost fight against the faction, famine and flood, the cursed relic),
  \<open>system\<close> for a policy that becomes available and \<open>muted\<close> for a calm day. The merchant
  logs its own offer.
\<close>

fun valence_tag :: "Bucket \<Rightarrow> bool \<Rightarrow> Tag" where
  "valence_tag Protest first = Warn"
| "valence_tag RogueFaction first = (if first then Good else Warn)"
| "valence_tag MerchantEvent first = Merchant"
| "valence_tag Disaster first = Warn"
| "valence_tag RoyalDecision first = Good"
| "valence_tag Relic first = (if first then Warn else Good)"
| "valence_tag PolicyUnlock first = System"
| "valence_tag Festival first = Good"
| "valence_tag Treasure first = Good"
| "valence_tag CalmDay first = Muted"

text \<open>
  The order of a night as the specification states it: food, then the random event
  resolver on the state after consumption, then the policy upkeep, and the death-day
  check last. The daily draw and the flavour lines stay where the source has them.
\<close>

definition sleep_as_claimed :: "State \<Rightarrow> rng \<Rightarrow> (State \<times> rng) option" where
  "sleep_as_claimed s g =
     Option.bind (sleep_food s g) (\<lambda>w.
       case sleep_flavour (sleep_daily_draw w) of (next, lg, g1) \<Rightarrow>
         Option.bind (dispatch random_event (fold (\<lambda>f st. f st) lg next) g1) (\<lambda>(s2, g2).
           Option.bind (sleep_upkeep (s2, [], g2)) (\<lambda>(s3, lg3, g3).
             Some (fold (\<lambda>f st. f st)
                     (lg3 @ (if day s3 \<ge> death_day s3
                        then [append_entry
                                ''Your time has come. Your kingdom now lives on in legend.'' Danger]
                        else [])) s3, g3))))"

text \<open>
  The effect of the daily draw of a night as the claim words it, on the roll \<open>r\<close> and the
  amount \<open>x\<close>.
\<close>

definition daily_effect :: "int \<Rightarrow> int \<Rightarrow> State \<Rightarrow> State" where
  "daily_effect r x next =
     (if 1 \<le> r \<and> r \<le> 15 then next\<lparr>money := max 0 (round_double (money next - of_int x))\<rparr>
      else if 16 \<le> r \<and> r \<le> 30 then next\<lparr>happiness := min 100 (max 0 (happiness next + x))\<rparr>
      else if 31 \<le> r \<and> r \<le> 40 then next\<lparr>people := min (maxpeople next) (people next + x)\<rparr>
      else next)"

definition daily_amount :: "int \<Rightarrow> rat \<Rightarrow> int" where
  "daily_amount r u =
     (if r \<le> 15 then rand 50 200 u else if r \<le> 30 then rand 5 15 u else rand 3 10 u)"

section \<open>The merchant's discount as the specification words it\<close>

text \<open>
  The discount percentage is six times the relationship, and the final price is the base
  price minus the floor of the base price times the percentage over one hundred, in
  exact arithmetic. \<open>priced_offers\<close> lists, for a state, every offer the merchant can make
  at the price of this formula: the weapons of the catalogue of the current era and the
  three unique items.
\<close>

definition spec_percent :: "int \<Rightarrow> int" where
  "spec_percent rel = rel * 6"

definition spec_price :: "int \<Rightarrow> int \<Rightarrow> int" where
  "spec_price rel base = base - (base * spec_percent rel) div 100"

definition priced_offers :: "State \<Rightarrow> MerchantOffer list" where
  "priced_offers s =
     map (\<lambda>w. WeaponOffer (mw_name w) (mw_bonus w)
                 (spec_price (merchant_relationship s) (mw_price w)))
       (case map_of MERCHANT_BY_ERA (currentEra s) of None \<Rightarrow> [] | Some pool \<Rightarrow> pool)
     @ map (\<lambda>x. UniqueOffer (offer_name x) (offer_effect x) (offer_value x)
                   (spec_price (merchant_relationship s) (offer_price x)))
         rare_items"

definition base_prices :: "int list" where
  "base_prices =
     map offer_price rare_items @ concat (map (\<lambda>(e, pool). map mw_price pool) MERCHANT_BY_ERA)"

section \<open>Bounds of the ledger\<close>

text \<open>
  \<open>ledger_inv\<close> collects the bounds on the numbers of the state: happiness and the
  player's health between 0 and 100, the enemy's health between 0 and the health of the
  enemy of the current fight (100 before the first fight, at most 300), the counters of
  the five potions used in a fight not below -1 and every other inventory counter not
  negative, strength at most \<open>maxstrength\<close>, and no negative population.
  \<open>state_inv\<close> adds what the commands need to keep these bounds: the capacity and the
  maximal strength are not negative, the enemy configuration comes from \<open>ENEMY\<close>, and
  the policies are the eight of the initial state. A state is reachable when a run of
  commands leads to it from an initial state, every command drawing unit values and
  being run in either of the two ways.
\<close>

definition policy_names :: "string list" where
  "policy_names = [''Universal Tax'', ''Charity Relief'', ''Royal Festival'', ''Food Rationing'',
     ''Open Borders'', ''Public Health'', ''Work Tax Rebate'', ''Electric Welfare'']"

definition inventory_ok :: "Inventory \<Rightarrow> bool" where
  "inventory_ok i =
     (- 1 \<le> hpotion i \<and> - 1 \<le> dpotion i \<and> 0 \<le> mpotion i \<and> 0 \<le> spotion i
      \<and> - 1 \<le> lightning_potion i \<and> - 1 \<le> sleep_potion i \<and> - 1 \<le> poison_potion i
      \<and> 0 \<le> bread i \<and> 0 \<le> meat i \<and> 0 \<le> fruit i \<and> 0 \<le> cheese i)"

definition ehealth_cap :: "State \<Rightarrow> int" where
  "ehealth_cap s = (case cfg (fight s) of None \<Rightarrow> 100 | Some c \<Rightarrow> health c)"

definition ledger_inv :: "State \<Rightarrow> bool" where
  "ledger_inv s =
     (0 \<le> happiness s \<and> happiness s \<le> 100
      \<and> 0 \<le> phealth s \<and> phealth s \<le> 100
      \<and> 0 \<le> ehealth s \<and> ehealth s \<le> ehealth_cap s \<and> ehealth_cap s \<le> 300
      \<and> inventory_ok (inventory s)
      \<and> strength s \<le> maxstrength s
      \<and> 0 \<le> people s)"

definition cfg_ok :: "EnemyCfg option \<Rightarrow> bool" where
  "cfg_ok c = (c = None \<or> c = Some (ENEMY EASY) \<or> c = Some (ENEMY MEDIUM) \<or> c = Some (ENEMY HARD))"

definition state_inv :: "State \<Rightarrow> bool" where
  "state_inv s =
     (ledger_inv s \<and> 0 \<le> maxpeople s \<and> 0 \<le> maxstrength s \<and> cfg_ok (cfg (fight s))
      \<and> map fst (policies s) = policy_names)"

definition inner_ok :: "inner_update \<Rightarrow> bool" where
  "inner_ok f = (\<forall>st. state_inv st \<longrightarrow> state_inv (f st))"

definition upd_ok :: "updater \<Rightarrow> bool" where
  "upd_ok u =
     (\<forall>prev g. state_inv prev \<and> unit_draws g \<longrightarrow>
        (\<exists>s' inner g'. u prev g = Some (s', inner, g') \<and> state_inv s' \<and> unit_draws g'
           \<and> list_all inner_ok inner))"




section \<open>Example states\<close>

text \<open>A state in which the merchant's pending offer costs more than the treasury holds.\<close>

definition poor_state :: State where
  "poor_state = (initialState (1 / 2))
     \<lparr>money := 100, pendingMerchant := Some (UniqueOffer ''Map Fragment'' None 0 800)\<rparr>"

text \<open>A state in the middle of an easy fight, with one health potion.\<close>

definition fighting_state :: State where
  "fighting_state = (initialState (1 / 2))
     \<lparr>phealth := 40,
      inventory := (inventory (initialState (1 / 2)))\<lparr>hpotion := 1\<rparr>,
      fight := \<lparr>cfg = Some (ENEMY EASY), stunned = False, poisonTurns = 0\<rparr>\<rparr>"

text \<open>
  A state with 20 coins and Charity Relief active, and a state on the eve of the death
  day (day 114, death day 115) with Universal Tax active; both hold food for the night.
\<close>

definition activate :: "string \<Rightarrow> Policies \<Rightarrow> Policies" where
  "activate k ps = AList.update k \<lparr>locked = False, active = True, desc = []\<rparr> ps"

definition charity_state :: State where
  "charity_state = (initialState (1 / 2))
     \<lparr>money := 20,
      inventory := (inventory (initialState (1 / 2)))\<lparr>bread := 100\<rparr>,
      policies := activate ''Charity Relief'' (policies (initialState (1 / 2)))\<rparr>"

definition last_day_state :: State where
  "last_day_state = (initialState (1 / 2))
     \<lparr>day := 114,
      inventory := (inventory (initialState (1 / 2)))\<lparr>bread := 100\<rparr>,
      policies := activate ''Universal Tax'' (policies (initialState (1 / 2)))\<rparr>"



text \<open>A state in which every policy has been unlocked.\<close>

definition unlocked_state :: State where
  "unlocked_state = (initialState (1 / 2))
     \<lparr>policies := map (\<lambda>(k, pol). (k, pol\<lparr>locked := False\<rparr>)) (policies (initialState (1 / 2)))\<rparr>"

section \<open>Properties\<close>

subsection \<open>Rounding to binary64\<close>

lemma rne_of_int [simp]: "rne (of_int k) = k"
  by (simp add: rne_def)

lemma rne_ge: "of_int K \<le> z \<Longrightarrow> K \<le> rne z"
proof -
  assume "of_int K \<le> z"
  then have "K \<le> \<lfloor>z\<rfloor>" by (simp add: le_floor_iff)
  then show ?thesis by (simp add: rne_def Let_def)
qed


lemma rne_below_half: "z < of_int K - 1 / 2 \<Longrightarrow> rne z \<le> K - 1"
proof -
  assume a: "z < of_int K - 1 / 2"
  then have "z < of_int K" by simp
  then have f: "\<lfloor>z\<rfloor> < K" by (simp add: floor_less_iff)
  show ?thesis
  proof (cases "\<lfloor>z\<rfloor> = K - 1")
    case True
    with a have "z - of_int \<lfloor>z\<rfloor> < 1 / 2" by simp
    with True show ?thesis by (simp add: rne_def Let_def)
  next
    case False
    with f have "\<lfloor>z\<rfloor> + 1 \<le> K - 1" by simp
    then show ?thesis by (simp add: rne_def Let_def)
  qed
qed

lemma bits_bounds: "0 < n \<Longrightarrow> 2 ^ (bits n - 1) \<le> n \<and> n < 2 ^ bits n"
proof (induction n rule: bits.induct)
  case (1 n)
  show ?case
  proof (cases "n div 2 = 0")
    case True
    with 1(2) have "n = 1" by (simp add: div_eq_0_iff) 
    then show ?thesis by (simp add: bits.simps)
  next
    case False
    with 1 have ih: "2 ^ (bits (n div 2) - 1) \<le> n div 2 \<and> n div 2 < 2 ^ bits (n div 2)"
      by simp
    from False have p: "0 < bits (n div 2)" by (simp add: bits.simps)
    have b: "bits n = Suc (bits (n div 2))" using 1(2) by (simp add: bits.simps)
    from ih have "2 * 2 ^ (bits (n div 2) - 1) \<le> n" by linarith
    moreover have "2 * 2 ^ (bits (n div 2) - 1) = (2::nat) ^ bits (n div 2)"
      using p by (cases "bits (n div 2)") simp_all
    moreover from ih have "n < 2 * 2 ^ bits (n div 2)" by linarith
    ultimately show ?thesis by (simp add: b)
  qed
qed

lemma bits_le: "n < 2 ^ k \<Longrightarrow> bits n \<le> k"
proof (cases "n = 0")
  case True
  then show ?thesis by (simp add: bits.simps)
next
  case False
  assume a: "n < 2 ^ k"
  from False bits_bounds [of n] have "2 ^ (bits n - 1) \<le> n" by simp
  with a have "(2::nat) ^ (bits n - 1) < 2 ^ k" by linarith
  then have "bits n - 1 < k" by (rule power_less_imp_less_exp [rotated]) simp
  then show ?thesis by simp
qed

lemma bits_pos: "0 < n \<Longrightarrow> 0 < bits n"
  by (simp add: bits.simps)

lemma halvings_le: "halvings n x \<le> n"
  by (induction n arbitrary: x) auto

lemma halvings_upper: "x < 1 \<Longrightarrow> x * 2 ^ halvings n x < 1"
proof (induction n arbitrary: x)
  case 0
  then show ?case by simp
next
  case (Suc n)
  show ?case
  proof (cases "x < 1 / 2")
    case True
    then have "2 * x < 1" by simp
    from Suc.IH [OF this] True show ?thesis by (simp add: mult.assoc mult.left_commute)
  next
    case False
    with Suc.prems show ?thesis by simp
  qed
qed

lemma halvings_lower: "halvings n x < n \<Longrightarrow> 1 / 2 \<le> x * 2 ^ halvings n x"
proof (induction n arbitrary: x)
  case 0
  then show ?case by simp
next
  case (Suc n)
  show ?case
  proof (cases "x < 1 / 2")
    case True
    with Suc.prems have "halvings n (2 * x) < n" by simp
    from Suc.IH [OF this] True show ?thesis by (simp add: mult.assoc mult.left_commute)
  next
    case False
    then show ?thesis by simp
  qed
qed


lemma binade_ge1:
  assumes "1 \<le> x"
  shows "1 \<le> binade x" and "2 ^ (nat (binade x) - 1) \<le> x" and "x < 2 ^ nat (binade x)"
proof -
  let ?n = "nat \<lfloor>x\<rfloor>"
  from assms have f: "1 \<le> \<lfloor>x\<rfloor>" by (simp add: le_floor_iff)
  then have n: "0 < ?n" by simp
  have b: "binade x = int (bits ?n)" using assms by (simp add: binade_def)
  from bits_pos [OF n] b show "1 \<le> binade x" by simp
  from bits_bounds [OF n] have lo: "2 ^ (bits ?n - 1) \<le> ?n" and hi: "?n < 2 ^ bits ?n"
    by simp_all
  from lo have "of_nat (2 ^ (bits ?n - 1)) \<le> (of_nat ?n :: rat)"
    by (simp only: of_nat_le_iff)
  also have "(of_nat ?n :: rat) = of_int \<lfloor>x\<rfloor>" using f by simp
  also have "\<dots> \<le> x" by simp
  finally show "2 ^ (nat (binade x) - 1) \<le> x" by (simp add: b)
  from hi have "\<lfloor>x\<rfloor> < 2 ^ bits ?n"
    using f by (metis nat_less_iff of_nat_numeral of_nat_power zero_le_one order_trans) 
  then have "x < of_int (2 ^ bits ?n)" by (simp only: floor_less_iff)
  then show "x < 2 ^ nat (binade x)" by (simp add: b)
qed

lemma binade_lt1:
  assumes "x < 1"
  shows "binade x \<le> 0" and "- 1021 \<le> binade x" and "x * 2 ^ nat (- binade x) < 1"
    and "- 1021 < binade x \<Longrightarrow> 1 / 2 \<le> x * 2 ^ nat (- binade x)"
proof -
  have b: "binade x = - int (halvings 1021 x)" using assms by (simp add: binade_def)
  show "binade x \<le> 0" by (simp add: b)
  from halvings_le [of 1021 x] show "- 1021 \<le> binade x" by (simp add: b)
  from halvings_upper [OF assms, of 1021] show "x * 2 ^ nat (- binade x) < 1" by (simp add: b)
  assume "- 1021 < binade x"
  then have "halvings 1021 x < 1021" by (simp add: b)
  from halvings_lower [OF this] show "1 / 2 \<le> x * 2 ^ nat (- binade x)" by (simp add: b)
qed

lemma binade_le_53:
  assumes "x < 2 ^ 53"
  shows "binade x \<le> 53"
proof (cases "1 \<le> x")
  case True
  from binade_ge1(1,2) [OF True] assms have "(2::rat) ^ (nat (binade x) - 1) < 2 ^ 53"
    by linarith
  then have "nat (binade x) - 1 < 53" by (rule power_less_imp_less_exp [rotated]) simp
  then show ?thesis by linarith
next
  case False
  then have "x < 1" by simp
  from binade_lt1(1) [OF this] show ?thesis by simp
qed

lemma round_pos_small:
  "binade y \<le> 53 \<Longrightarrow>
     round_pos y = of_int (rne (y * 2 ^ nat (53 - binade y))) / 2 ^ nat (53 - binade y)"
  by (simp add: round_pos_def Let_def)

lemma round_pos_ge:
  assumes "binade y \<le> 53" and "of_int N \<le> y"
  shows "of_int N \<le> round_pos y"
proof -
  let ?p = "nat (53 - binade y)"
  have "of_int (N * 2 ^ ?p) \<le> y * 2 ^ ?p"
    using assms(2) by simp
  from rne_ge [OF this] have "of_int (N * 2 ^ ?p) \<le> (of_int (rne (y * 2 ^ ?p)) :: rat)"
    by (simp only: of_int_le_iff)
  then have "of_int N * 2 ^ ?p \<le> (of_int (rne (y * 2 ^ ?p)) :: rat)"
    by simp
  then show ?thesis
    by (simp add: round_pos_small [OF assms(1)] pos_le_divide_eq)
qed


lemma round_pos_less:
  assumes "binade y \<le> 53" and "y < of_int M - 1 / (2 * 2 ^ nat (53 - binade y))"
  shows "round_pos y < of_int M"
proof -
  let ?p = "nat (53 - binade y)"
  have "y * 2 ^ ?p < (of_int M - 1 / (2 * 2 ^ ?p)) * 2 ^ ?p"
    using assms(2) by (simp only: mult_less_cancel_right_pos zero_less_power zero_less_numeral)
  also have "\<dots> = of_int (M * 2 ^ ?p) - 1 / 2"
    by (simp add: algebra_simps)
  finally have "rne (y * 2 ^ ?p) \<le> M * 2 ^ ?p - 1"
    by (rule rne_below_half)
  then have "(of_int (rne (y * 2 ^ ?p)) :: rat) \<le> of_int (M * 2 ^ ?p - 1)"
    by (simp only: of_int_le_iff)
  then have "(of_int (rne (y * 2 ^ ?p)) :: rat) < of_int M * 2 ^ ?p"
    by simp
  then show ?thesis
    by (simp add: round_pos_small [OF assms(1)] pos_divide_less_eq)
qed

lemma half_ulp_less:
  assumes "0 < y" and "y < of_int n" and "n \<le> 2 ^ 53"
  shows "1 / (2 * 2 ^ nat (53 - binade y)) < (of_int n :: rat) / 2 ^ 53"
proof -
  let ?p = "nat (53 - binade y)"
  have n: "(1::rat) \<le> of_int n"
  proof -
    from assms(1,2) have "(0::rat) < of_int n" by linarith
    then have "0 < n" by simp
    then have "1 \<le> n" by simp
    then show ?thesis by simp
  qed
  have "(2::rat) ^ 53 < 2 * of_int n * 2 ^ ?p"
  proof (cases "1 \<le> y")
    case True
    note b = binade_ge1 [OF True]
    have y53: "y < 2 ^ 53"
    proof -
      from assms(3) have "(of_int n :: rat) \<le> of_int (2 ^ 53)" by (simp only: of_int_le_iff)
      with assms(2) show ?thesis by simp
    qed
    from binade_le_53 [OF y53] b(1) have e: "nat (binade y) - 1 + ?p = 52"
      by linarith
    from b(2) assms(2) have "(2::rat) ^ (nat (binade y) - 1) < of_int n" by linarith
    then have "(2::rat) ^ (nat (binade y) - 1) * 2 ^ ?p < of_int n * 2 ^ ?p"
      by (simp only: mult_less_cancel_right_pos zero_less_power zero_less_numeral)
    then have "(2::rat) ^ 52 < of_int n * 2 ^ ?p"
      by (simp only: power_add [symmetric] e)
    then show ?thesis by simp
  next
    case False
    then have "y < 1" by simp
    from binade_lt1(1) [OF this] have "53 \<le> ?p" by simp
    then have "(2::rat) ^ 53 \<le> 2 ^ ?p" by (simp only: power_increasing_iff one_less_numeral_iff semiring_norm)
    moreover have "(2::rat) ^ ?p \<le> of_int n * 2 ^ ?p" using n by simp
    moreover have "(0::rat) < 2 ^ 53" by simp
    ultimately have "(2::rat) ^ 53 < 2 * (of_int n * 2 ^ ?p)" by linarith
    then show ?thesis by (simp only: mult.assoc)
  qed
  then show ?thesis
    by (simp add: field_simps)
qed


lemma round_double_nonneg: "0 \<le> x \<Longrightarrow> 0 \<le> round_double x"
proof -
  assume "0 \<le> x"
  have "0 \<le> round_pos y" if "0 \<le> y" for y
  proof -
    have r: "0 \<le> rne z" if "0 \<le> z" for z
      using rne_ge [of 0 z] that by simp
    from that show ?thesis
      by (simp add: round_pos_def Let_def r)
  qed
  with \<open>0 \<le> x\<close> show ?thesis
    by (simp add: round_double_def)
qed

lemma round_double_less:
  assumes "0 \<le> y" and "y \<le> of_int n - of_int n / 2 ^ 53" and "1 \<le> n" and "n \<le> 2 ^ 53"
  shows "round_double y < of_int n"
proof (cases "y = 0")
  case True
  with assms(3) show ?thesis by (simp add: round_double_def)
next
  case False
  with assms(1) have pos: "0 < y" by simp
  have "(0::rat) < of_int n / 2 ^ 53" using assms(3) by simp
  with assms(2) have lt: "y < of_int n" by linarith
  have y53: "y < 2 ^ 53"
  proof -
    from assms(4) have "(of_int n :: rat) \<le> of_int (2 ^ 53)" by (simp only: of_int_le_iff)
    with lt show ?thesis by simp
  qed
  from half_ulp_less [OF pos lt assms(4)] assms(2)
  have "y < of_int n - 1 / (2 * 2 ^ nat (53 - binade y))" by linarith
  from round_pos_less [OF binade_le_53 [OF y53] this] pos show ?thesis
    by (simp add: round_double_def)
qed

lemma floor_round_scale:
  assumes "0 \<le> u" and "u \<le> 1 - 1 / 2 ^ 53" and "1 \<le> n" and "n \<le> 2 ^ 53"
  shows "0 \<le> \<lfloor>round_double (u * of_int n)\<rfloor> \<and> \<lfloor>round_double (u * of_int n)\<rfloor> < n"
proof -
  have n: "(0::rat) < of_int n" using assms(3) by simp
  have lo: "0 \<le> u * of_int n" using assms(1) n by simp
  have "u * of_int n \<le> (1 - 1 / 2 ^ 53) * of_int n"
    using assms(2) n by (simp only: mult_le_cancel_right_pos)
  then have hi: "u * of_int n \<le> of_int n - of_int n / 2 ^ 53"
    by (simp add: algebra_simps)
  from round_double_less [OF lo hi assms(3,4)] round_double_nonneg [OF lo] show ?thesis
    by (simp add: floor_less_iff)
qed

lemma floor_round_interval:
  assumes "0 \<le> N" and "of_int N \<le> y" and "y < of_int N + 1 - of_int n / 2 ^ 53"
    and "y < of_int n" and "n \<le> 2 ^ 53"
  shows "\<lfloor>round_double y\<rfloor> = N"
proof (cases "y = 0")
  case True
  with assms(1,2) have "N = 0" by simp
  with True show ?thesis by (simp add: round_double_def)
next
  case False
  with assms(1,2) have pos: "0 < y" by simp
  have y53: "y < 2 ^ 53"
  proof -
    from assms(5) have "(of_int n :: rat) \<le> of_int (2 ^ 53)" by (simp only: of_int_le_iff)
    with assms(4) show ?thesis by simp
  qed
  note b = binade_le_53 [OF y53]
  from half_ulp_less [OF pos assms(4,5)] assms(3)
  have "y < of_int (N + 1) - 1 / (2 * 2 ^ nat (53 - binade y))" by simp
  from round_pos_less [OF b this] round_pos_ge [OF b assms(2)] pos show ?thesis
    by (intro floor_unique) (simp_all add: round_double_def)
qed

lemma round_pos_dyadic:
  assumes "0 < m" and "m < 2 ^ 53" and "j \<le> 1074"
  shows "round_pos (of_int m / 2 ^ j) = of_int m / 2 ^ j"
proof -
  let ?x = "of_int m / 2 ^ j :: rat"
  let ?p = "nat (53 - binade ?x)"
  have m53: "(of_int m :: rat) < 2 ^ 53"
  proof -
    from assms(2) have "(of_int m :: rat) < of_int (2 ^ 53)" by (simp only: of_int_less_iff)
    then show ?thesis by simp
  qed
  have "?x \<le> of_int m" using assms(1) by (simp add: divide_le_eq)
  with m53 have x53: "?x < 2 ^ 53" by linarith
  note b = binade_le_53 [OF x53]
  have xm: "?x * 2 ^ j = of_int m" by simp
  have jp: "j \<le> ?p"
  proof (cases "1 \<le> ?x")
    case True
    note g = binade_ge1 [OF True]
    from g(2) have "(2::rat) ^ (nat (binade ?x) - 1) * 2 ^ j \<le> ?x * 2 ^ j"
      by (simp only: mult_le_cancel_right_pos zero_less_power zero_less_numeral)
    with m53 have "(2::rat) ^ (nat (binade ?x) - 1 + j) < 2 ^ 53"
      by (simp only: power_add xm)
    then have "nat (binade ?x) - 1 + j < 53" by (rule power_less_imp_less_exp [rotated]) simp
    with g(1) b show ?thesis by linarith
  next
    case False
    then have l: "?x < 1" by simp
    note h = binade_lt1 [OF l]
    show ?thesis
    proof (cases "- 1021 < binade ?x")
      case True
      from h(4) [OF True] have "(1::rat) \<le> 2 * (?x * 2 ^ nat (- binade ?x))" by simp
      from mult_right_mono [OF this, of "2 ^ j"]
      have "(2::rat) ^ j \<le> 2 * (?x * 2 ^ nat (- binade ?x)) * 2 ^ j"
        by simp
      also have "\<dots> = 2 * 2 ^ nat (- binade ?x) * (?x * 2 ^ j)" by (simp only: mult_ac)
      also have "\<dots> = 2 ^ (Suc (nat (- binade ?x))) * of_int m" by (simp only: xm) simp
      also have "\<dots> < 2 ^ (Suc (nat (- binade ?x))) * 2 ^ 53"
        using m53 by (simp only: mult_less_cancel_left_pos zero_less_power zero_less_numeral)
      finally have "(2::rat) ^ j < 2 ^ (Suc (nat (- binade ?x)) + 53)"
        by (simp only: power_add)
      then have "j < Suc (nat (- binade ?x)) + 53" by (rule power_less_imp_less_exp [rotated]) simp
      with h(1) show ?thesis by linarith
    next
      case False
      with h(2) have "binade ?x = - 1021" by simp
      with assms(3) show ?thesis by simp
    qed
  qed
  have "?x * 2 ^ ?p = of_int (m * 2 ^ (?p - j))"
  proof -
    have "(2::rat) ^ ?p = 2 ^ j * 2 ^ (?p - j)"
      using jp by (simp only: power_add [symmetric]) simp
    then show ?thesis by simp
  qed
  then have "round_pos ?x = of_int (m * 2 ^ (?p - j)) / 2 ^ ?p"
    by (simp only: round_pos_small [OF b] rne_of_int)
  also have "\<dots> = ?x * 2 ^ ?p / 2 ^ ?p"
    using \<open>?x * 2 ^ ?p = of_int (m * 2 ^ (?p - j))\<close> by simp
  also have "\<dots> = ?x" by simp
  finally show ?thesis .
qed

lemma round_double_dyadic:
  assumes "\<bar>m\<bar> < 2 ^ 53" and "j \<le> 1074"
  shows "round_double (of_int m / 2 ^ j) = of_int m / 2 ^ j"
proof -
  consider "m = 0" | "0 < m" | "m < 0" by linarith
  then show ?thesis
  proof cases
    case 1
    then show ?thesis by (simp add: round_double_def)
  next
    case 2
    with assms(1) have "m < 2 ^ 53" by simp
    from round_pos_dyadic [OF 2 this assms(2)] 2 show ?thesis
      by (simp add: round_double_def)
  next
    case 3
    with assms(1) have "0 < - m" "- m < 2 ^ 53" by simp_all
    moreover have "of_int m / 2 ^ j < (0::rat)" using 3 by (simp add: divide_less_0_iff)
    ultimately show ?thesis
      using round_pos_dyadic [of "- m" j] assms(2) by (simp add: round_double_def)
  qed
qed

lemma round_double_of_int: "\<bar>k\<bar> < 2 ^ 53 \<Longrightarrow> round_double (of_int k) = of_int k"
  using round_double_dyadic [of k 0] by simp


subsection \<open>Evaluation helpers\<close>

lemma halvings_numeral:
  "halvings (numeral k) x = (if x < 1 / 2 then Suc (halvings (pred_numeral k) (2 * x)) else 0)"
  by (simp add: numeral_eq_Suc)

lemma bits_numeral:
  "bits (numeral k) = Suc (bits (numeral k div 2))" "bits 0 = 0" "bits (Suc 0) = Suc 0"
  by (simp_all add: bits.simps)

lemma floor_numeral_div: "\<lfloor>(numeral a :: rat) / numeral b\<rfloor> = numeral a div numeral b"
  using floor_divide_of_int_eq [of "numeral a" "numeral b", where ?'a = rat] by simp

lemmas rd_eval = round_double_def round_pos_def binade_def rne_def Let_def halvings_numeral
  bits_numeral floor_numeral_div

lemma round_double_numeral:
  "(numeral k :: int) < 2 ^ 53 \<Longrightarrow> round_double (numeral k) = numeral k"
  using round_double_of_int [of "numeral k"] by simp

lemma round_double_zero [simp]: "round_double 0 = 0"
  by (simp add: round_double_def)

lemma round_double_one [simp]: "round_double 1 = 1"
  using round_double_of_int [of 1] by simp

lemma round_double_neg_numeral:
  "(numeral k :: int) < 2 ^ 53 \<Longrightarrow> round_double (- numeral k) = - numeral k"
  using round_double_of_int [of "- numeral k"] by simp

lemma round_double_halves:
  "(numeral k :: int) < 2 ^ 53 \<Longrightarrow> round_double (numeral k / 2) = numeral k / 2"
  "round_double (1 / 2) = 1 / 2" "round_double (- (1 / 2)) = - (1 / 2)"
  "(numeral k :: int) < 2 ^ 53 \<Longrightarrow> round_double (- (numeral k / 2)) = - (numeral k / 2)"
  using round_double_dyadic [of "numeral k" 1] round_double_dyadic [of 1 1]
    round_double_dyadic [of "- 1" 1] round_double_dyadic [of "- numeral k" 1]
  by simp_all

lemma rand_dyadic:
  assumes "\<bar>p * (b - a + 1)\<bar> < 2 ^ 53" and "j \<le> 1074"
  shows "rand a b (of_int p / 2 ^ j) = (p * (b - a + 1)) div 2 ^ j + a"
proof -
  have e: "of_int p / 2 ^ j * of_int (b - a + 1) = (of_int (p * (b - a + 1)) / 2 ^ j :: rat)"
    by simp
  have "\<lfloor>(of_int (p * (b - a + 1)) :: rat) / of_int (2 ^ j)\<rfloor> = (p * (b - a + 1)) div 2 ^ j"
    by (rule floor_divide_of_int_eq)
  then show ?thesis
    unfolding rand_def e round_double_dyadic [OF assms] by simp
qed

lemma rand_half: "\<bar>b - a + 1\<bar> < 2 ^ 53 \<Longrightarrow> rand a b (1 / 2) = (b - a + 1) div 2 + a"
  using rand_dyadic [of 1 b a 1] by simp

lemma rand_quarters:
  "\<bar>numeral p * (b - a + 1)\<bar> < 2 ^ 53 \<Longrightarrow>
     rand a b (numeral p / 4) = (numeral p * (b - a + 1)) div 4 + a"
  using rand_dyadic [of "numeral p" b a 2] by simp

lemma rand_sixteenths:
  "\<bar>numeral p * (b - a + 1)\<bar> < 2 ^ 53 \<Longrightarrow>
     rand a b (numeral p / 16) = (numeral p * (b - a + 1)) div 16 + a"
  "\<bar>b - a + 1\<bar> < 2 ^ 53 \<Longrightarrow> rand a b (1 / 16) = (b - a + 1) div 16 + a"
  using rand_dyadic [of "numeral p" b a 4] rand_dyadic [of 1 b a 4] by simp_all

lemma slice_last_snoc_nonempty: "slice_last 600 (xs @ [x]) \<noteq> []"
  by (simp add: slice_last_def)

lemma last_slice_last_snoc: "last (slice_last 600 (xs @ [x])) = x"
  by (simp add: slice_last_def)

lemma unit_draws_shd: "unit_draws g \<Longrightarrow> 0 \<le> shd g \<and> shd g \<le> 1 - 1 / 2 ^ 53"
  by (simp add: unit_draws_def shd_sset)

lemma unit_draws_stl: "unit_draws g \<Longrightarrow> unit_draws (stl g)"
  by (auto simp: unit_draws_def dest: stl_sset)

lemma unit_draws_sconst: "0 \<le> u \<Longrightarrow> u \<le> 1 - 1 / 2 ^ 53 \<Longrightarrow> unit_draws (sconst u)"
  by (simp add: unit_draws_def)

lemma rand_range:
  assumes "0 \<le> u" and "u \<le> 1 - 1 / 2 ^ 53" and "a \<le> b" and "b - a < 2 ^ 53"
  shows "a \<le> rand a b u \<and> rand a b u \<le> b"
proof -
  define n where "n = b - a + 1"
  have "1 \<le> n" "n \<le> 2 ^ 53"
    using assms(3,4) by (simp_all add: n_def)
  from floor_round_scale [OF assms(1,2) this]
  have "0 \<le> \<lfloor>round_double (u * of_int n)\<rfloor> \<and> \<lfloor>round_double (u * of_int n)\<rfloor> < n" .
  then show ?thesis
    unfolding rand_def n_def [symmetric] by (simp add: n_def)
qed

lemma index_at_floor:
  assumes "n = int (length xs)" and "0 \<le> \<lfloor>round_double (u * of_int n)\<rfloor>"
    and "\<lfloor>round_double (u * of_int n)\<rfloor> < n"
  shows "index_at xs u = Some (xs ! nat \<lfloor>round_double (u * of_int n)\<rfloor>)"
  using assms(2,3) unfolding index_at_def Let_def assms(1) [symmetric] by simp

lemma length_bound_int: "length xs \<le> 2 ^ 53 \<Longrightarrow> int (length xs) \<le> 2 ^ 53"
  by (metis of_nat_le_iff of_nat_numeral of_nat_power)

lemma index_at_unit:
  assumes "0 \<le> u" and "u \<le> 1 - 1 / 2 ^ 53" and "xs \<noteq> []" and "length xs \<le> 2 ^ 53"
  shows "\<exists>i < length xs. index_at xs u = Some (xs ! i)"
proof -
  define n where "n = int (length xs)"
  have "1 \<le> n"
    using assms(3) by (cases xs) (simp_all add: n_def)
  moreover have "n \<le> 2 ^ 53"
    using length_bound_int [OF assms(4)] by (simp add: n_def)
  ultimately have f: "0 \<le> \<lfloor>round_double (u * of_int n)\<rfloor>"
      "\<lfloor>round_double (u * of_int n)\<rfloor> < n"
    using floor_round_scale [OF assms(1,2), of n] by simp_all
  then have "nat \<lfloor>round_double (u * of_int n)\<rfloor> < length xs"
    unfolding n_def by linarith
  with index_at_floor [OF n_def f] show ?thesis
    by blast
qed

lemma index_at_interval:
  assumes "i < length xs" and "length xs \<le> 2 ^ 53"
    and "of_nat i / of_nat (length xs) \<le> u"
    and "u < (of_nat i + 1) / of_nat (length xs) - 1 / 2 ^ 53"
  shows "index_at xs u = Some (xs ! i)"
proof -
  define n where "n = int (length xs)"
  define m :: rat where "m = of_int n"
  have m: "0 < m" using assms(1) by (cases xs) (simp_all add: m_def n_def)
  have mn: "m = of_nat (length xs)" by (simp add: m_def n_def)
  have lo: "of_int (int i) \<le> u * m"
    using assms(3) m by (simp add: mn [symmetric] pos_divide_le_eq)
  have "u * m < ((of_int (int i) + 1) / m - 1 / 2 ^ 53) * m"
    using assms(4) m by (simp add: mn [symmetric])
  also have "\<dots> = of_int (int i) + 1 - m / 2 ^ 53"
    using m by (simp add: field_simps)
  finally have hi: "u * m < of_int (int i) + 1 - m / 2 ^ 53" .
  have "int i + 1 \<le> n" using assms(1) by (simp add: n_def)
  then have "(of_int (int i + 1) :: rat) \<le> of_int n" by (simp only: of_int_le_iff)
  then have "of_int (int i) + 1 \<le> m" by (simp add: m_def)
  moreover have "0 < m / 2 ^ 53" using m by simp
  ultimately have lt: "u * m < m" using hi by linarith
  have le: "n \<le> 2 ^ 53"
    using length_bound_int [OF assms(2)] by (simp add: n_def)
  have "\<lfloor>round_double (u * of_int n)\<rfloor> = int i"
    using floor_round_interval [OF _ _ _ _ le, of "int i" "u * m"] lo hi lt
    by (simp add: m_def)
  moreover from this assms(1) have "0 \<le> \<lfloor>round_double (u * of_int n)\<rfloor>"
      "\<lfloor>round_double (u * of_int n)\<rfloor> < n"
    by (simp_all add: n_def)
  ultimately show ?thesis
    using index_at_floor [OF n_def, of u] by simp
qed

lemma index_at_mem: "index_at xs u = Some y \<Longrightarrow> y \<in> set xs"
proof -
  assume a: "index_at xs u = Some y"
  let ?i = "\<lfloor>round_double (u * of_int (int (length xs)))\<rfloor>"
  from a have r: "0 \<le> ?i \<and> ?i < int (length xs)" and y: "y = xs ! nat ?i"
    by (auto simp: index_at_def Let_def split: if_splits)
  from r have "nat ?i < length xs"
    by linarith
  with y show ?thesis
    by simp
qed

lemma map_of_key_present: "k \<in> set (map fst xs) \<Longrightarrow> map_of xs k \<noteq> None"
  by (induction xs) auto


lemmas queue_defs = dispatch_def set_state_def appendLog_def append_entry_def Let_def

lemmas fight_defs = playerAction_def fight_round_def settle_def updateFightBars_def
  poison_tick_def startFight_def

lemmas sleep_defs = command_sleep_def sleep_update_def sleep_food_def sleep_daily_draw_def
  sleep_flavour_def sleep_death_check_def sleep_upkeep_def upkeep_universal_tax_def
  upkeep_charity_relief_def upkeep_royal_festival_def upkeep_public_health_def
  upkeep_open_borders_def upkeep_electric_welfare_def policy_active_def flavour_def

lemmas eval_defs = queue_defs slice_last_def rand_quarters rand_sixteenths rand_half clamp_def
  round_double_numeral round_double_neg_numeral

subsection \<open>Merchant discount\<close>

lemma base_prices_set:
  "set base_prices = {700, 1000, 800, 600, 1200, 2000, 1400, 2400, 3500, 3000, 4000, 5500,
     5000, 7500, 7000, 10000, 15000, 9000, 12000, 20000}"
  by (auto simp: base_prices_def rare_items_def MERCHANT_BY_ERA_def mk_mw_def)

lemma discount_floor:
  assumes "rel \<in> {0, 1, 2, 3, 4, 5}" and "b \<in> set base_prices"
  shows "\<lfloor>round_double (of_int b * round_double (of_int (rel * 6) / 100))\<rfloor> = (b * (rel * 6)) div 100"
  using assms unfolding base_prices_set
  by (elim insertE emptyE) (simp_all add: rd_eval)


lemma discountedPrice_spec:
  assumes "0 \<le> merchant_relationship s" and "merchant_relationship s \<le> 5"
    and "b \<in> set base_prices"
  shows "discountedPrice s b
    = (spec_price (merchant_relationship s) b, spec_percent (merchant_relationship s))"
proof -
  from assms(1,2) have "merchant_relationship s \<in> {0, 1, 2, 3, 4, 5}"
    by (simp add: insert_iff) linarith
  from discount_floor [OF this assms(3)] show ?thesis
    by (simp add: discountedPrice_def Let_def spec_price_def spec_percent_def)
qed

lemma weighted_pool_subset: "set (weighted_pool pool) \<subseteq> set pool"
  by (auto simp: weighted_pool_def)

lemma pool_price_base:
  assumes "map_of MERCHANT_BY_ERA e = Some pool" and "w \<in> set pool"
  shows "mw_price w \<in> set base_prices"
proof -
  let ?f = "\<lambda>(e, pool). map mw_price pool"
  from assms(1) have "(e, pool) \<in> set MERCHANT_BY_ERA"
    by (rule map_of_SomeD)
  then have "?f (e, pool) \<in> ?f ` set MERCHANT_BY_ERA"
    by (rule imageI)
  then have "map mw_price pool \<in> set (map ?f MERCHANT_BY_ERA)"
    by simp
  moreover from assms(2) have "mw_price w \<in> set (map mw_price pool)"
    by simp
  ultimately have "mw_price w \<in> set (concat (map ?f MERCHANT_BY_ERA))"
    unfolding set_concat by (rule UN_I)
  then show ?thesis
    unfolding base_prices_def by (simp only: set_append Un_iff simp_thms)
qed

lemma rare_price_base: "x \<in> set rare_items \<Longrightarrow> offer_price x \<in> set base_prices"
  unfolding base_prices_def by simp

lemma weapon_offer_priced:
  assumes "0 \<le> merchant_relationship s" and "merchant_relationship s \<le> 5"
    and "map_of MERCHANT_BY_ERA (currentEra s) = Some pool"
    and "index_at (weighted_pool pool) u = Some sel"
  shows "WeaponOffer (mw_name sel) (mw_bonus sel) (fst (discountedPrice s (mw_price sel)))
    \<in> set (priced_offers s)"
proof -
  from index_at_mem [OF assms(4)] weighted_pool_subset have m: "sel \<in> set pool"
    by blast
  from discountedPrice_spec [OF assms(1,2) pool_price_base [OF assms(3) m]]
  have "fst (discountedPrice s (mw_price sel)) = spec_price (merchant_relationship s) (mw_price sel)"
    by simp
  with m assms(3) show ?thesis
    by (simp add: priced_offers_def image_iff) blast
qed

lemma unique_offer_priced:
  assumes "0 \<le> merchant_relationship s" and "merchant_relationship s \<le> 5"
    and "index_at (filter (\<lambda>x. Some (offer_name x) \<noteq> l) rare_items) u = Some sel"
  shows "UniqueOffer (offer_name sel) (offer_effect sel) (offer_value sel)
      (fst (discountedPrice s (offer_price sel))) \<in> set (priced_offers s)"
proof -
  from index_at_mem [OF assms(3)] have m: "sel \<in> set rare_items"
    by simp
  from discountedPrice_spec [OF assms(1,2) rare_price_base [OF m]]
  have "fst (discountedPrice s (offer_price sel))
      = spec_price (merchant_relationship s) (offer_price sel)"
    by simp
  with m show ?thesis
    by (simp add: priced_offers_def image_iff) blast
qed

lemmas merchant_run = set_state_def appendLog_def append_entry_def split_beta

lemma merchant_event_offer:
  assumes "0 \<le> merchant_relationship s" and "merchant_relationship s \<le> 5"
    and "dispatch merchant_event s g = Some (s', g')"
  shows "\<exists>offer \<in> set (priced_offers s). pendingMerchant s' = Some offer"
proof -
  let ?rare = "filter (\<lambda>x. Some (offer_name x) \<noteq> last_merchant_offer_type s) rare_items"
  let ?A = "map_of MERCHANT_BY_ERA (currentEra s) \<noteq> None
     \<and> map_of (merchant_weapon_log s) (currentEra s) = None"
  let ?B = "rand 1 100 (shd g) \<le> 3 \<and> last_merchant_offer_type s \<noteq> Some ''weapon''"
  let ?ot = "if ?A \<and> ?B then ''weapon'' else ''unique''"
  have c: "((if Some ?ot = last_merchant_offer_type s then ''unique'' else ?ot) = ''weapon'')
      = (?A \<and> ?B)"
    by auto
  note run = assms(3) [unfolded dispatch_def merchant_event_def Let_def c]
  have unique: ?thesis
    if sel: "index_at ?rare u = Some sel"
      and p: "pendingMerchant s' = Some (UniqueOffer (offer_name sel) (offer_effect sel)
        (offer_value sel) (fst (discountedPrice s (offer_price sel))))" for u sel
    using unique_offer_priced [OF assms(1,2) sel] p by blast
  show ?thesis
  proof (cases ?A)
    case A: True
    then obtain pool where pool: "map_of MERCHANT_BY_ERA (currentEra s) = Some pool"
      by auto
    show ?thesis
    proof (cases ?B)
      case B: True
      with A have "(?A \<and> ?B) = True"
        by blast
      note run = run [unfolded this]
      show ?thesis
      proof (cases "index_at (weighted_pool pool) (shd (stl g))")
        case None
        with A pool run show ?thesis
          by simp
      next
        case (Some sel)
        with A pool run have "pendingMerchant s' = Some (WeaponOffer (mw_name sel)
            (mw_bonus sel) (fst (discountedPrice s (mw_price sel))))"
          by (auto simp: merchant_run)
        with weapon_offer_priced [OF assms(1,2) pool Some] show ?thesis
          by blast
      qed
    next
      case B: False
      then have "(?A \<and> ?B) = False"
        by blast
      note run = run [unfolded this]
      show ?thesis
      proof (cases "index_at ?rare (shd (stl g))")
        case None
        with A pool run show ?thesis
          by simp
      next
        case (Some sel)
        with A pool run have "pendingMerchant s' = Some (UniqueOffer (offer_name sel)
            (offer_effect sel) (offer_value sel) (fst (discountedPrice s (offer_price sel))))"
          by (auto simp: merchant_run)
        with Some show ?thesis
          by (rule unique)
      qed
    qed
  next
    case A: False
    then have "(?A \<and> ?B) = False"
      by blast
    note run = run [unfolded this]
    show ?thesis
    proof (cases "index_at ?rare (shd g)")
      case None
      with A run show ?thesis
        by auto
    next
      case (Some sel)
      with A run have "pendingMerchant s' = Some (UniqueOffer (offer_name sel)
          (offer_effect sel) (offer_value sel) (fst (discountedPrice s (offer_price sel))))"
        by (auto simp: merchant_run)
      with Some show ?thesis
        by (rule unique)
    qed
  qed
qed

text \<open>
  C6. With a merchant relationship between 0 and 5, the binary64 computation of
  \<open>discountedPrice\<close> gives, for every base price of the merchant's tables, the discount
  percentage of six times the relationship and the final price of the base price minus
  the floor of base price times percentage over one hundred; with relationship 3 the
  percentage is 18 and a base price of 1000 gives 820. Every offer the merchant event
  leaves pending is an item of the tables of the current state, with its own name, bonus
  or effect, at the price this formula gives for the base price of that item.
\<close>

theorem discountedPrice_formula:
  assumes "0 \<le> merchant_relationship s" and "merchant_relationship s \<le> 5"
  shows "(\<forall>b \<in> set base_prices.
            discountedPrice s b = (b - (b * (merchant_relationship s * 6)) div 100,
                                   merchant_relationship s * 6))
    \<and> discountedPrice (s\<lparr>merchant_relationship := 3\<rparr>) 1000 = (820, 18)
    \<and> (dispatch merchant_event s g = Some (s', g') \<longrightarrow>
         (\<exists>offer \<in> set (priced_offers s). pendingMerchant s' = Some offer))"
proof -
  have a: "\<forall>b \<in> set base_prices.
            discountedPrice s b = (b - (b * (merchant_relationship s * 6)) div 100,
                                   merchant_relationship s * 6)"
    using discountedPrice_spec [OF assms] by (simp add: spec_price_def spec_percent_def)
  have "(1000::int) \<in> set base_prices"
    by (simp add: base_prices_set)
  from discountedPrice_spec [of "s\<lparr>merchant_relationship := 3\<rparr>", OF _ _ this]
  have b: "discountedPrice (s\<lparr>merchant_relationship := 3\<rparr>) 1000 = (820, 18)"
    by (simp add: spec_price_def spec_percent_def)
  from a b merchant_event_offer [OF assms, of g s' g'] show ?thesis
    by blast
qed

theorem discountedPrice_formula_witness:
  "0 \<le> merchant_relationship ((initialState (1 / 2))\<lparr>merchant_relationship := 3\<rparr>)
   \<and> merchant_relationship ((initialState (1 / 2))\<lparr>merchant_relationship := 3\<rparr>) \<le> 5
   \<and> 1000 \<in> set base_prices
   \<and> discountedPrice ((initialState (1 / 2))\<lparr>merchant_relationship := 3\<rparr>) 1000 = (820, 18)
   \<and> map_option (pendingMerchant \<circ> fst)
        (dispatch merchant_event ((initialState (1 / 2))\<lparr>merchant_relationship := 3\<rparr>)
           (sconst (1 / 2)))
      = Some (Some (UniqueOffer ''Ancient Scroll'' (Some Maxstrength) 1 820))
   \<and> UniqueOffer ''Ancient Scroll'' (Some Maxstrength) 1 820
        \<in> set (priced_offers ((initialState (1 / 2))\<lparr>merchant_relationship := 3\<rparr>))"
proof -
  let ?s = "(initialState (1 / 2))\<lparr>merchant_relationship := 3\<rparr>"
  let ?r = "dispatch merchant_event ?s (sconst (1 / 2))"
  have h: "0 \<le> merchant_relationship ?s" "merchant_relationship ?s \<le> 5"
    by simp_all
  have m: "(1000::int) \<in> set base_prices"
    by (simp add: base_prices_set)
  have d: "discountedPrice ?s 1000 = (820, 18)"
    using discountedPrice_formula [OF h] m by simp
  have d3: "discountedPrice t 1000 = (820, 18)" if "merchant_relationship t = 3" for t
    using discountedPrice_spec [of t 1000] m that by (simp add: spec_price_def spec_percent_def)
  have p: "map_option (pendingMerchant \<circ> fst) ?r
      = Some (Some (UniqueOffer ''Ancient Scroll'' (Some Maxstrength) 1 820))"
    by (simp add: dispatch_def merchant_event_def MERCHANT_BY_ERA_def d3 index_at_def
        rare_items_def round_double_halves floor_numeral_div
        merchant_run initialState_def Let_def rand_half)
  then obtain s' g' where r: "?r = Some (s', g')"
    by (cases ?r) auto
  from discountedPrice_formula [OF h, of "sconst (1 / 2)" s' g'] r
  obtain offer where "offer \<in> set (priced_offers ?s)" "pendingMerchant s' = Some offer"
    by blast
  with p r have "UniqueOffer ''Ancient Scroll'' (Some Maxstrength) 1 820 \<in> set (priced_offers ?s)"
    by simp
  with h m d p show ?thesis
    by (intro conjI)
qed

subsection \<open>Refused purchase\<close>

text \<open>
  C7. When Buy Merchant is invoked with less money than the pending offer costs, the
  state changes only by one log entry tagged \<open>warn\<close> appended through the log's
  retention rule; the offer stays pending and money, relationship, equipment and
  inventory keep their values. Invoking it again on the resulting state appends a second
  such entry and changes nothing else.
\<close>

theorem buyMerchant_refused:
  assumes "pendingMerchant s = Some p" and "money s < of_int (offer_price p)"
  defines "e1 \<equiv> \<lparr>ltext = ''You cannot afford it.'', ltag = Warn,
                  lid = (if logs s \<noteq> [] then lid (last (logs s)) + 1 else 1)\<rparr>"
  defines "s1 \<equiv> s\<lparr>logs := slice_last 600 (logs s @ [e1])\<rparr>"
  defines "e2 \<equiv> \<lparr>ltext = ''You cannot afford it.'', ltag = Warn, lid = lid e1 + 1\<rparr>"
  shows "dispatch buyMerchant s g = Some (s1, g)
    \<and> dispatch buyMerchant s1 g' = Some (s1\<lparr>logs := slice_last 600 (logs s1 @ [e2])\<rparr>, g')"
  using assms(1,2)
  by (simp add: queue_defs buyMerchant_def s1_def e1_def e2_def
      slice_last_snoc_nonempty last_slice_last_snoc)

theorem buyMerchant_refused_witness:
  "pendingMerchant poor_state = Some (UniqueOffer ''Map Fragment'' None 0 800)
   \<and> money poor_state < of_int (offer_price (UniqueOffer ''Map Fragment'' None 0 800))
   \<and> dispatch buyMerchant poor_state (sconst 0) =
       Some (poor_state\<lparr>logs := [\<lparr>ltext = ''You cannot afford it.'', ltag = Warn, lid = 1\<rparr>]\<rparr>,
             sconst 0)"
proof -
  have h1: "pendingMerchant poor_state = Some (UniqueOffer ''Map Fragment'' None 0 800)"
    by (simp add: poor_state_def)
  have h2: "money poor_state < of_int (offer_price (UniqueOffer ''Map Fragment'' None 0 800))"
    by (simp add: poor_state_def initialState_def)
  have h3: "logs poor_state = []"
    by (simp add: poor_state_def initialState_def)
  from buyMerchant_refused [OF h1 h2, of "sconst 0" "sconst 0"]
  have "dispatch buyMerchant poor_state (sconst 0) =
      Some (poor_state\<lparr>logs := slice_last 600
        (logs poor_state @ [\<lparr>ltext = ''You cannot afford it.'', ltag = Warn,
           lid = (if logs poor_state \<noteq> [] then lid (last (logs poor_state)) + 1 else 1)\<rparr>])\<rparr>,
        sconst 0)"
    by (rule conjunct1)
  then show ?thesis
    using h1 h2 by (simp only: h3) (simp add: slice_last_def)
qed

subsection \<open>Potion actions\<close>

lemma phealth_poison_tick: "phealth (poison_tick t) = phealth t"
  by (simp add: poison_tick_def Let_def)

lemma heal_result:
  "dispatch (playerAction Heal) s g =
     Some (if cfg (fight s) = None then s
           else poison_tick (if hpotion (inventory s) > 0
             then s\<lparr>phealth := 100,
                    inventory := (inventory s)\<lparr>hpotion := round_double (hpotion (inventory s) - 1)\<rparr>\<rparr>
             else s), g)"
  by (cases "cfg (fight s)")
     (simp_all add: dispatch_def set_state_def playerAction_def updateFightBars_def)

lemma lightning_result:
  "dispatch (playerAction Lightning) s g =
     Some (if cfg (fight s) = None then s
           else poison_tick (if lightning_potion (inventory s) > 0
             then s\<lparr>inventory := (inventory s)
                      \<lparr>lightning_potion := round_double (lightning_potion (inventory s) - 1)\<rparr>\<rparr>
             else s), g)"
  by (cases "cfg (fight s)")
     (simp_all add: dispatch_def set_state_def playerAction_def updateFightBars_def)

lemma sleep_potion_result:
  "dispatch (playerAction Sleep) s g =
     Some (if cfg (fight s) = None then s
           else poison_tick (if sleep_potion (inventory s) > 0
             then s\<lparr>inventory := (inventory s)
                      \<lparr>sleep_potion := round_double (sleep_potion (inventory s) - 1)\<rparr>\<rparr>
             else s), g)"
  by (cases "cfg (fight s)")
     (simp_all add: dispatch_def set_state_def playerAction_def updateFightBars_def)

lemma poison_result:
  "dispatch (playerAction Poison) s g =
     Some (if cfg (fight s) = None then s
           else poison_tick (if poison_potion (inventory s) > 0
             then s\<lparr>fight := (fight s)\<lparr>poisonTurns := 3\<rparr>,
                    inventory := (inventory s)
                      \<lparr>poison_potion := round_double (poison_potion (inventory s) - 1)\<rparr>\<rparr>
             else s), g)"
  by (cases "cfg (fight s)")
     (simp_all add: dispatch_def set_state_def playerAction_def updateFightBars_def)

text \<open>
  C5. In a fight, the actions heal, lightning, sleep potion and poison apply the
  potion's effect when the potion is in stock (nothing otherwise), then the poison tick,
  and return: no enemy attack is rolled and no random value is consumed. The player's
  health is therefore never lower afterwards, and heal with a health potion in stock
  leaves it at exactly 100. Without an enemy configuration the action returns at once.
\<close>

theorem potion_actions_short_circuit:
  assumes "phealth s \<le> 100"
  shows
    "dispatch (playerAction Heal) s g =
       Some (if cfg (fight s) = None then s
             else poison_tick (if hpotion (inventory s) > 0
               then s\<lparr>phealth := 100,
                      inventory := (inventory s)\<lparr>hpotion := round_double (hpotion (inventory s) - 1)\<rparr>\<rparr>
               else s), g)
     \<and> dispatch (playerAction Lightning) s g =
       Some (if cfg (fight s) = None then s
             else poison_tick (if lightning_potion (inventory s) > 0
               then s\<lparr>inventory := (inventory s)
                        \<lparr>lightning_potion := round_double (lightning_potion (inventory s) - 1)\<rparr>\<rparr>
               else s), g)
     \<and> dispatch (playerAction Sleep) s g =
       Some (if cfg (fight s) = None then s
             else poison_tick (if sleep_potion (inventory s) > 0
               then s\<lparr>inventory := (inventory s)
                        \<lparr>sleep_potion := round_double (sleep_potion (inventory s) - 1)\<rparr>\<rparr>
               else s), g)
     \<and> dispatch (playerAction Poison) s g =
       Some (if cfg (fight s) = None then s
             else poison_tick (if poison_potion (inventory s) > 0
               then s\<lparr>fight := (fight s)\<lparr>poisonTurns := 3\<rparr>,
                      inventory := (inventory s)
                        \<lparr>poison_potion := round_double (poison_potion (inventory s) - 1)\<rparr>\<rparr>
               else s), g)
     \<and> (\<forall>a \<in> {Heal, Lightning, Sleep, Poison}.
          \<exists>s'. dispatch (playerAction a) s g = Some (s', g) \<and> phealth s \<le> phealth s')
     \<and> (cfg (fight s) \<noteq> None \<and> hpotion (inventory s) > 0 \<longrightarrow>
          (\<exists>s'. dispatch (playerAction Heal) s g = Some (s', g) \<and> phealth s' = 100))"
proof -
  have heal: "\<exists>s'. dispatch (playerAction Heal) s g = Some (s', g) \<and> phealth s \<le> phealth s'"
    using assms by (simp add: heal_result phealth_poison_tick)
  have lightning:
    "\<exists>s'. dispatch (playerAction Lightning) s g = Some (s', g) \<and> phealth s \<le> phealth s'"
    by (simp add: lightning_result phealth_poison_tick)
  have sleep: "\<exists>s'. dispatch (playerAction Sleep) s g = Some (s', g) \<and> phealth s \<le> phealth s'"
    by (simp add: sleep_potion_result phealth_poison_tick)
  have poison: "\<exists>s'. dispatch (playerAction Poison) s g = Some (s', g) \<and> phealth s \<le> phealth s'"
    by (simp add: poison_result phealth_poison_tick)
  have full: "cfg (fight s) \<noteq> None \<and> hpotion (inventory s) > 0 \<longrightarrow>
          (\<exists>s'. dispatch (playerAction Heal) s g = Some (s', g) \<and> phealth s' = 100)"
    by (simp add: heal_result phealth_poison_tick)
  from heal lightning sleep poison
  have all4: "\<forall>a \<in> {Heal, Lightning, Sleep, Poison}.
          \<exists>s'. dispatch (playerAction a) s g = Some (s', g) \<and> phealth s \<le> phealth s'"
    by blast
  show ?thesis
    by (intro conjI heal_result lightning_result sleep_potion_result poison_result all4 full)
qed

theorem potion_actions_short_circuit_witness:
  "phealth fighting_state \<le> 100
   \<and> cfg (fight fighting_state) \<noteq> None \<and> hpotion (inventory fighting_state) > 0
   \<and> Heal \<in> {Heal, Lightning, Sleep, Poison}
   \<and> (\<exists>s'. dispatch (playerAction Heal) fighting_state (sconst (1 / 2)) = Some (s', sconst (1 / 2))
         \<and> phealth s' = 100)"
proof -
  have h: "phealth fighting_state \<le> 100"
    by (simp add: fighting_state_def)
  have c: "cfg (fight fighting_state) \<noteq> None \<and> hpotion (inventory fighting_state) > 0"
    by (simp add: fighting_state_def)
  from potion_actions_short_circuit [OF h, of "sconst (1 / 2)"] c
  have "\<exists>s'. dispatch (playerAction Heal) fighting_state (sconst (1 / 2)) = Some (s', sconst (1 / 2))
         \<and> phealth s' = 100"
    by blast
  with h c show ?thesis
    by simp
qed

subsection \<open>Actions after a fight has ended\<close>

text \<open>
  C4. \<open>playerAction\<close> of \<open>src/main.tsx\<close> tests only whether an enemy configuration is
  set; its fight state has no flag that marks the fight as over. From the initial state,
  after buying the Laser Saber and starting an easy fight, the first strike brings the
  enemy to 0 health and settles the victory (reward 100, one win). A second strike in the
  same fight is resolved as a full turn again: the enemy attacks, the reward is paid a
  second time and the win counter rises to 2.
\<close>

theorem playerAction_settles_again_after_victory:
  "map_option (\<lambda>(s, g). (ehealth s, phealth s, wfight s, money s))
     (run_commands [CmdBuyWeapon 7 3, CmdStartFight EASY, CmdPlayerAction Strike]
        (initialState (1 / 2)) (sconst (1 / 2))) = Some (0, 95, 1, 980090)
   \<and> map_option (\<lambda>(s, g). (ehealth s, phealth s, wfight s, money s))
     (run_commands
        [CmdBuyWeapon 7 3, CmdStartFight EASY, CmdPlayerAction Strike, CmdPlayerAction Strike]
        (initialState (1 / 2)) (sconst (1 / 2))) = Some (0, 90, 2, 980190)"
  by (simp add: queue_defs fight_defs buyWeapon_def WEAPONS_def mk_weapon_def initialState_def
      rand_half round_double_numeral)

subsection \<open>The random event resolver\<close>

lemmas event_defs = random_event_def protest_update_def rogue_defeat_update_def
  unlock_update_def

lemma re_protest:
  assumes "rand 1 100 (shd g) \<le> 10"
  shows "\<exists>txt. dispatch random_event s g =
     map_option (\<lambda>(s1, g1). (append_entry txt (valence_tag Protest (first_branch Protest (stl g))) s1, g1)) (spec_outcome Protest s (stl g))"
  using assms
  by (intro exI[of _ "''Protest in the streets. Lost '' @ show_int (rand 100 300 (shd (stl g))) @ '' coins. Happiness reduced.''"])
     (simp add: event_defs dispatch_def set_state_def appendLog_def Let_def)


lemma re_rogue:
  assumes "10 < rand 1 100 (shd g)" and "rand 1 100 (shd g) \<le> 20"
  shows "\<exists>txt. dispatch random_event s g =
     map_option (\<lambda>(s1, g1). (append_entry txt (valence_tag RogueFaction (first_branch RogueFaction (stl g))) s1, g1)) (spec_outcome RogueFaction s (stl g))"
proof (cases "rand 1 10 (shd (stl g)) \<le> 6")
  case True
  with assms show ?thesis
    by (intro exI[of _ "''You repelled a rogue faction and looted '' @ show_int (rand 300 800 (shd (stl (stl g)))) @ '' coins.''"])
       (simp add: event_defs dispatch_def set_state_def appendLog_def Let_def)
next
  case False
  with assms show ?thesis
    by (intro exI[of _ "''You lost to a rogue faction. People and '' @ show_int (rand 100 400 (shd (stl (stl g)))) @ '' coins lost.''"])
       (simp add: event_defs dispatch_def set_state_def appendLog_def Let_def)
qed

lemma re_merchant:
  assumes "20 < rand 1 100 (shd g)" and "rand 1 100 (shd g) \<le> 30"
  shows "dispatch random_event s g = dispatch merchant_event s (stl g)"
  using assms by (simp add: random_event_def dispatch_def Let_def)

lemma re_disaster:
  assumes "30 < rand 1 100 (shd g)" and "rand 1 100 (shd g) \<le> 40"
  shows "\<exists>txt. dispatch random_event s g =
     map_option (\<lambda>(s1, g1). (append_entry txt (valence_tag Disaster (first_branch Disaster (stl g))) s1, g1)) (spec_outcome Disaster s (stl g))"
proof (cases "shd (stl g) < 1 / 2")
  case True
  with assms show ?thesis
    by (intro exI[of _ "''Famine struck. '' @ show_int (rand 5 15 (shd (stl (stl g)))) @ '' people died and food supplies dwindled.''"])
       (simp add: event_defs dispatch_def set_state_def appendLog_def Let_def)
next
  case False
  with assms show ?thesis
    by (intro exI[of _ "''Flooding damaged crops. '' @ show_int (rand 10 20 (shd (stl (stl g)))) @ '' bread lost.''"])
       (simp add: event_defs dispatch_def set_state_def appendLog_def Let_def)
qed

lemma re_royal:
  assumes "40 < rand 1 100 (shd g)" and "rand 1 100 (shd g) \<le> 50"
  shows "\<exists>txt. dispatch random_event s g =
     map_option (\<lambda>(s1, g1). (append_entry txt (valence_tag RoyalDecision (first_branch RoyalDecision (stl g))) s1, g1)) (spec_outcome RoyalDecision s (stl g))"
  using assms
  by (intro exI[of _ "''A royal decision pleased the people. Happiness rises.''"])
     (simp add: event_defs dispatch_def set_state_def appendLog_def Let_def)

lemma re_relic:
  assumes "50 < rand 1 100 (shd g)" and "rand 1 100 (shd g) \<le> 55"
  shows "\<exists>txt. dispatch random_event s g =
     map_option (\<lambda>(s1, g1). (append_entry txt (valence_tag Relic (first_branch Relic (stl g))) s1, g1)) (spec_outcome Relic s (stl g))"
proof (cases "shd (stl g) < 1 / 2")
  case True
  with assms show ?thesis
    by (intro exI[of _ "''A cursed relic brought misfortune.''"])
       (simp add: event_defs dispatch_def set_state_def appendLog_def Let_def)
next
  case False
  with assms show ?thesis
    by (intro exI[of _ "''An enchanted relic blessed the land. +500 coins.''"])
       (simp add: event_defs dispatch_def set_state_def appendLog_def Let_def)
qed

lemma locked_keys_spec:
  "distinct (map fst ps) \<Longrightarrow>
     filter (\<lambda>k. case map_of ps k of Some pol \<Rightarrow> locked pol | None \<Rightarrow> False) (map fst ps)
       = map fst (filter (\<lambda>(k, pol). locked pol) ps)"
proof (induction ps)
  case Nil
  then show ?case by simp
next
  case (Cons p ps)
  obtain k v where p: "p = (k, v)" by (cases p)
  from Cons.prems p have d: "k \<notin> fst ` set ps" "distinct (map fst ps)"
    by simp_all
  have "filter (\<lambda>k'. case map_of ((k, v) # ps) k' of Some pol \<Rightarrow> locked pol | None \<Rightarrow> False)
          (map fst ps)
      = filter (\<lambda>k'. case map_of ps k' of Some pol \<Rightarrow> locked pol | None \<Rightarrow> False) (map fst ps)"
    using d(1) by (intro filter_cong refl) auto
  with Cons.IH [OF d(2)] show ?case
    by (simp add: p)
qed

lemma locked_keys_eq: "distinct (map fst (policies s)) \<Longrightarrow> locked_keys s = locked_policies s"
  by (simp add: locked_keys_def locked_policies_def locked_keys_spec)

lemma unlock_policy_absent: "key \<notin> fst ` set ps \<Longrightarrow> unlock_policy key ps = ps"
  by (induction ps) (auto simp: unlock_policy_def)

lemma unlock_policy_update:
  "distinct (map fst ps) \<Longrightarrow> map_of ps key = Some pol \<Longrightarrow>
     AList.update key (pol\<lparr>locked := False\<rparr>) ps = unlock_policy key ps"
proof (induction ps)
  case Nil
  then show ?case by simp
next
  case (Cons p ps)
  obtain k v where p: "p = (k, v)" by (cases p)
  show ?case
  proof (cases "k = key")
    case True
    with Cons.prems p have "v = pol" "key \<notin> fst ` set ps"
      by simp_all
    with True p unlock_policy_absent [of key ps] show ?thesis
      by (simp add: unlock_policy_def)
  next
    case False
    with Cons.prems p have "distinct (map fst ps)" "map_of ps key = Some pol"
      by simp_all
    from Cons.IH [OF this] False p show ?thesis
      by (simp add: unlock_policy_def)
  qed
qed

lemma locked_policies_subset: "set (locked_policies s) \<subseteq> set (map fst (policies s))"
  by (auto simp: locked_policies_def)

lemma re_policy_none:
  assumes "55 < rand 1 100 (shd g)" and "rand 1 100 (shd g) \<le> 60"
    and "distinct (map fst (policies s))" and "locked_policies s = []"
  shows "dispatch random_event s g = Some (s, stl g)"
  using assms(1,2,4) locked_keys_eq [OF assms(3)]
  by (simp add: random_event_def dispatch_def Let_def)

lemma re_policy_some:
  assumes "55 < rand 1 100 (shd g)" and "rand 1 100 (shd g) \<le> 60"
    and "distinct (map fst (policies s))" and "locked_policies s \<noteq> []"
  shows "\<exists>txt. dispatch random_event s g =
     map_option (\<lambda>(s1, g1). (append_entry txt
         (valence_tag PolicyUnlock (first_branch PolicyUnlock (stl g))) s1, g1))
       (spec_outcome PolicyUnlock s (stl g))"
proof (cases "index_at (locked_policies s) (shd (stl g))")
  case None
  with assms(1,2,4) locked_keys_eq [OF assms(3)] show ?thesis
    by (intro exI[of _ "[]"]) (simp add: event_defs dispatch_def Let_def)
next
  case (Some key)
  from index_at_mem [OF Some] locked_policies_subset have "key \<in> set (map fst (policies s))"
    by blast
  then obtain pol where pol: "map_of (policies s) key = Some pol"
    using map_of_key_present by fastforce
  from unlock_policy_update [OF assms(3) pol]
  have u: "AList.update key (pol\<lparr>locked := False\<rparr>) (policies s) = unlock_policy key (policies s)" .
  from Some pol assms(1,2,4) locked_keys_eq [OF assms(3)] show ?thesis
    by (intro exI[of _ "''New policy emerged: '' @ key @ ''. '' @ desc pol"])
       (simp add: event_defs dispatch_def set_state_def appendLog_def Let_def u)
qed

lemma re_festival:
  assumes "60 < rand 1 100 (shd g)" and "rand 1 100 (shd g) \<le> 70"
  shows "\<exists>txt. dispatch random_event s g =
     map_option (\<lambda>(s1, g1). (append_entry txt (valence_tag Festival (first_branch Festival (stl g))) s1, g1)) (spec_outcome Festival s (stl g))"
  using assms
  by (intro exI[of _ "''A festival boosted morale. +'' @ show_int (rand 10 30 (shd (stl g))) @ '' happiness.''"])
     (simp add: event_defs dispatch_def set_state_def appendLog_def Let_def)

lemma re_treasure:
  assumes "70 < rand 1 100 (shd g)" and "rand 1 100 (shd g) \<le> 80"
  shows "\<exists>txt. dispatch random_event s g =
     map_option (\<lambda>(s1, g1). (append_entry txt (valence_tag Treasure (first_branch Treasure (stl g))) s1, g1)) (spec_outcome Treasure s (stl g))"
  using assms
  by (intro exI[of _ "''Buried treasure found. +'' @ show_int (rand 200 600 (shd (stl g))) @ '' coins.''"])
     (simp add: event_defs dispatch_def set_state_def appendLog_def Let_def)

lemma re_calm:
  assumes "80 < rand 1 100 (shd g)"
  shows "\<exists>txt. dispatch random_event s g =
     map_option (\<lambda>(s1, g1). (append_entry txt (valence_tag CalmDay (first_branch CalmDay (stl g))) s1, g1)) (spec_outcome CalmDay s (stl g))"
  using assms
  by (intro exI[of _ "''A calm day passes.''"])
     (simp add: event_defs dispatch_def set_state_def appendLog_def Let_def)



lemma spec_outcome_logs:
  assumes "spec_outcome b s g = Some (s1, g1)" and "b \<noteq> MerchantEvent"
  shows "logs s1 = logs s"
  using assms
  by (cases b) (auto simp: Let_def split: if_splits option.splits)

lemma append_entry_reset_logs: "(append_entry txt tg s1)\<lparr>logs := l\<rparr> = s1\<lparr>logs := l\<rparr>"
  by (simp add: append_entry_def Let_def)

lemma logs_append_entry:
  "logs (append_entry txt tg s1) =
     slice_last 600 (logs s1 @ [\<lparr>ltext = txt, ltag = tg,
        lid = (if logs s1 \<noteq> [] then lid (last (logs s1)) + 1 else 1)\<rparr>])"
  by (simp add: append_entry_def Let_def)

lemma locked_policies_length: "length (locked_policies s) \<le> length (policies s)"
  by (simp add: locked_policies_def)

lemma spec_outcome_total:
  assumes "unit_draws g" and "length (policies s) \<le> 2 ^ 53" and "b \<noteq> MerchantEvent"
  shows "\<exists>s1 g1. spec_outcome b s g = Some (s1, g1)"
proof (cases b)
  case PolicyUnlock
  show ?thesis
  proof (cases "locked_policies s = []")
    case True
    with PolicyUnlock show ?thesis by simp
  next
    case False
    from locked_policies_length [of s] assms(2) have "length (locked_policies s) \<le> 2 ^ 53"
      by linarith
    with unit_draws_shd [OF assms(1)] index_at_unit [of "shd g" "locked_policies s"] False
    obtain i where "index_at (locked_policies s) (shd g) = Some (locked_policies s ! i)"
      by blast
    with PolicyUnlock False show ?thesis by simp
  qed
qed (use assms(3) in \<open>simp_all add: Let_def\<close>)

lemma logged_split:
  assumes "\<exists>txt. out = map_option (\<lambda>(s1, g1). (append_entry txt tg s1, g1)) (spec_outcome b s g)"
    and "b \<noteq> MerchantEvent"
  shows "map_option (\<lambda>(s', g'). (s'\<lparr>logs := logs s\<rparr>, g')) out = spec_outcome b s g"
proof (cases "spec_outcome b s g")
  case None
  with assms(1) show ?thesis by auto
next
  case (Some r)
  obtain s1 g1 where r: "r = (s1, g1)" by (cases r)
  from spec_outcome_logs [OF Some [unfolded r] assms(2)] have "s1\<lparr>logs := logs s\<rparr> = s1"
    by simp
  with assms(1) Some r show ?thesis
    by (auto simp: append_entry_reset_logs)
qed

lemma logged_once:
  assumes "\<exists>txt. out = map_option (\<lambda>(s1, g1). (append_entry txt tg s1, g1)) (spec_outcome b s g)"
    and "b \<noteq> MerchantEvent" and "unit_draws g" and "length (policies s) \<le> 2 ^ 53"
  shows "\<exists>s' g' e. out = Some (s', g') \<and> logs s' = slice_last 600 (logs s @ [e])
      \<and> ltag e = tg
      \<and> lid e = (if logs s \<noteq> [] then lid (last (logs s)) + 1 else 1)"
proof -
  from spec_outcome_total [OF assms(3,4,2)] obtain s1 g1 where
    spec: "spec_outcome b s g = Some (s1, g1)" by blast
  from spec_outcome_logs [OF spec assms(2)] have l: "logs s1 = logs s" .
  from assms(1) spec obtain msg where
    out: "out = Some (append_entry msg tg s1, g1)" by auto
  show ?thesis
    by (intro exI [of _ "append_entry msg tg s1"] exI [of _ g1]
        exI [of _ "\<lparr>ltext = msg, ltag = tg,
          lid = (if logs s \<noteq> [] then lid (last (logs s)) + 1 else 1)\<rparr>"])
       (simp add: out logs_append_entry l)
qed

lemma spec_buckets_cases:
  "1 \<le> r \<Longrightarrow> r \<le> 10 \<Longrightarrow> spec_buckets r = [Protest]"
  "10 < r \<Longrightarrow> r \<le> 20 \<Longrightarrow> spec_buckets r = [RogueFaction]"
  "20 < r \<Longrightarrow> r \<le> 30 \<Longrightarrow> spec_buckets r = [MerchantEvent]"
  "30 < r \<Longrightarrow> r \<le> 40 \<Longrightarrow> spec_buckets r = [Disaster]"
  "40 < r \<Longrightarrow> r \<le> 50 \<Longrightarrow> spec_buckets r = [RoyalDecision]"
  "50 < r \<Longrightarrow> r \<le> 55 \<Longrightarrow> spec_buckets r = [Relic]"
  "55 < r \<Longrightarrow> r \<le> 60 \<Longrightarrow> spec_buckets r = [PolicyUnlock]"
  "60 < r \<Longrightarrow> r \<le> 70 \<Longrightarrow> spec_buckets r = [Festival]"
  "70 < r \<Longrightarrow> r \<le> 80 \<Longrightarrow> spec_buckets r = [Treasure]"
  "80 < r \<Longrightarrow> r \<le> 100 \<Longrightarrow> spec_buckets r = [CalmDay]"
  by (simp_all add: spec_buckets_def spec_ranges_def)

lemma spec_buckets_mem:
  assumes "b \<in> set (spec_buckets r)"
  shows "\<exists>lo hi. (b, lo, hi) \<in> set spec_ranges \<and> lo \<le> r \<and> r \<le> hi"
  using assms by (fastforce simp: spec_buckets_def)

lemma merchant_bucket_range:
  assumes "MerchantEvent \<in> set (spec_buckets r)"
  shows "21 \<le> r \<and> r \<le> 30"
proof -
  from spec_buckets_mem [OF assms] obtain lo hi where
    "(MerchantEvent, lo, hi) \<in> set spec_ranges" and "lo \<le> r" and "r \<le> hi"
    by blast
  then show ?thesis
    by (auto simp: spec_ranges_def)
qed

lemma policy_bucket_range:
  assumes "PolicyUnlock \<in> set (spec_buckets r)"
  shows "56 \<le> r \<and> r \<le> 60"
proof -
  from spec_buckets_mem [OF assms] obtain lo hi where
    "(PolicyUnlock, lo, hi) \<in> set spec_ranges" and "lo \<le> r" and "r \<le> hi"
    by blast
  then show ?thesis
    by (auto simp: spec_ranges_def)
qed

lemma roll_range: "unit_draws g \<Longrightarrow> 1 \<le> rand 1 100 (shd g) \<and> rand 1 100 (shd g) \<le> 100"
  using rand_range [of "shd g" 1 100] unit_draws_shd [of g] by simp

lemma random_event_bucket:
  assumes "unit_draws g" and "distinct (map fst (policies s))"
  shows "\<exists>b. spec_buckets (rand 1 100 (shd g)) = [b]
     \<and> (b = MerchantEvent \<longrightarrow> dispatch random_event s g = dispatch merchant_event s (stl g))
     \<and> (b = PolicyUnlock \<and> locked_policies s = [] \<longrightarrow>
          dispatch random_event s g = Some (s, stl g))
     \<and> (b \<noteq> MerchantEvent \<and> \<not> (b = PolicyUnlock \<and> locked_policies s = []) \<longrightarrow>
          (\<exists>txt. dispatch random_event s g =
             map_option (\<lambda>(s1, g1). (append_entry txt
                 (valence_tag b (first_branch b (stl g))) s1, g1))
               (spec_outcome b s (stl g))))"
proof -
  let ?r = "rand 1 100 (shd g)"
  from roll_range [OF assms(1)] have r: "1 \<le> ?r" "?r \<le> 100" by simp_all
  consider "?r \<le> 10" | "10 < ?r" "?r \<le> 20" | "20 < ?r" "?r \<le> 30" | "30 < ?r" "?r \<le> 40"
    | "40 < ?r" "?r \<le> 50" | "50 < ?r" "?r \<le> 55" | "55 < ?r" "?r \<le> 60"
    | "60 < ?r" "?r \<le> 70" | "70 < ?r" "?r \<le> 80" | "80 < ?r"
    by linarith
  then show ?thesis
  proof cases
    case 1
    with r re_protest [OF 1, of s] show ?thesis
      by (intro exI [of _ Protest]) (simp add: spec_buckets_cases)
  next
    case 2
    with re_rogue [OF 2, of s] show ?thesis
      by (intro exI [of _ RogueFaction]) (simp add: spec_buckets_cases)
  next
    case 3
    with re_merchant [OF 3, of s] show ?thesis
      by (intro exI [of _ MerchantEvent]) (simp add: spec_buckets_cases)
  next
    case 4
    with re_disaster [OF 4, of s] show ?thesis
      by (intro exI [of _ Disaster]) (simp add: spec_buckets_cases)
  next
    case 5
    with re_royal [OF 5, of s] show ?thesis
      by (intro exI [of _ RoyalDecision]) (simp add: spec_buckets_cases)
  next
    case 6
    with re_relic [OF 6, of s] show ?thesis
      by (intro exI [of _ Relic]) (simp add: spec_buckets_cases)
  next
    case 7
    show ?thesis
    proof (cases "locked_policies s = []")
      case True
      with 7 re_policy_none [OF 7 assms(2) True] show ?thesis
        by (intro exI [of _ PolicyUnlock]) (simp add: spec_buckets_cases)
    next
      case False
      with 7 re_policy_some [OF 7 assms(2) False] show ?thesis
        by (intro exI [of _ PolicyUnlock]) (simp add: spec_buckets_cases)
    qed
  next
    case 8
    with re_festival [OF 8, of s] show ?thesis
      by (intro exI [of _ Festival]) (simp add: spec_buckets_cases)
  next
    case 9
    with re_treasure [OF 9, of s] show ?thesis
      by (intro exI [of _ Treasure]) (simp add: spec_buckets_cases)
  next
    case 10
    with r re_calm [OF 10, of s] show ?thesis
      by (intro exI [of _ CalmDay]) (simp add: spec_buckets_cases)
  qed
qed


text \<open>
  C2. One invocation of the random event resolver draws one integer between 1 and 100
  and falls into exactly one bucket of the table of inclusive ranges (1-10 protest,
  11-20 rogue faction, 21-30 merchant, 31-40 disaster, 41-50 royal decision, 51-55 relic,
  56-60 policy unlock, 61-70 festival, 71-80 treasure, 81-100 calm day); apart from the
  log, the resulting state is the outcome of that bucket alone. On 56-60 a policy whose
  locked flag is set gets the flag cleared, and none when no policy is locked; the
  policy is the one whose interval of width 1/n, short of its last \<open>2^-53\<close>, contains the
  unit draw. The policies are the fields of an object, so their names are distinct.
\<close>

theorem random_event_dispatch:
  assumes "unit_draws g" and "distinct (map fst (policies s))"
    and "length (policies s) \<le> 2 ^ 53"
  shows "1 \<le> rand 1 100 (shd g) \<and> rand 1 100 (shd g) \<le> 100
     \<and> (\<exists>b. spec_buckets (rand 1 100 (shd g)) = [b]
          \<and> map_option (\<lambda>(s', g'). (s'\<lparr>logs := logs s\<rparr>, g')) (dispatch random_event s g)
              = spec_outcome b s (stl g))
     \<and> (\<forall>i < length (locked_policies s).
          of_nat i / of_nat (length (locked_policies s)) \<le> shd (stl g)
          \<and> shd (stl g) < (of_nat i + 1) / of_nat (length (locked_policies s)) - 1 / 2 ^ 53
          \<longrightarrow> index_at (locked_policies s) (shd (stl g)) = Some (locked_policies s ! i))"
proof -
  from random_event_bucket [OF assms(1,2)] obtain b where
    b: "spec_buckets (rand 1 100 (shd g)) = [b]"
    and m: "b = MerchantEvent \<longrightarrow> dispatch random_event s g = dispatch merchant_event s (stl g)"
    and p: "b = PolicyUnlock \<and> locked_policies s = [] \<longrightarrow>
          dispatch random_event s g = Some (s, stl g)"
    and o: "b \<noteq> MerchantEvent \<and> \<not> (b = PolicyUnlock \<and> locked_policies s = []) \<longrightarrow>
          (\<exists>txt. dispatch random_event s g =
             map_option (\<lambda>(s1, g1). (append_entry txt
                 (valence_tag b (first_branch b (stl g))) s1, g1))
               (spec_outcome b s (stl g)))"
    by blast
  have "map_option (\<lambda>(s', g'). (s'\<lparr>logs := logs s\<rparr>, g')) (dispatch random_event s g)
      = spec_outcome b s (stl g)"
  proof (cases "b = MerchantEvent")
    case True
    with m show ?thesis by simp
  next
    case nm: False
    show ?thesis
    proof (cases "b = PolicyUnlock \<and> locked_policies s = []")
      case True
      with p show ?thesis by simp
    next
      case False
      with nm o logged_split [of "dispatch random_event s g" _ b s "stl g"] show ?thesis
        by blast
    qed
  qed
  moreover have "length (locked_policies s) \<le> 2 ^ 53"
    using locked_policies_length [of s] assms(3) by linarith
  ultimately show ?thesis
    using b roll_range [OF assms(1)] index_at_interval [of _ "locked_policies s" "shd (stl g)"]
    by blast
qed

theorem random_event_dispatch_witness:
  "unit_draws (sconst (9 / 16))
   \<and> distinct (map fst (policies (initialState (1 / 2))))
   \<and> length (policies (initialState (1 / 2))) \<le> 2 ^ 53
   \<and> rand 1 100 (shd (sconst (9 / 16))) = 57
   \<and> spec_buckets 57 = [PolicyUnlock]
   \<and> index_at (locked_policies (initialState (1 / 2))) (9 / 16) = Some ''Open Borders''
   \<and> map_option (\<lambda>(s', g'). (s'\<lparr>logs := logs (initialState (1 / 2))\<rparr>, g'))
        (dispatch random_event (initialState (1 / 2)) (sconst (9 / 16)))
      = Some ((initialState (1 / 2))
                \<lparr>policies := unlock_policy ''Open Borders'' (policies (initialState (1 / 2)))\<rparr>,
              sconst (9 / 16))"
proof -
  have u: "unit_draws (sconst (9 / 16))"
    by (simp add: unit_draws_def)
  have d: "distinct (map fst (policies (initialState (1 / 2))))"
      "length (policies (initialState (1 / 2))) \<le> 2 ^ 53"
    by (simp_all add: initialState_def)
  have r: "rand 1 100 (shd (sconst (9 / 16))) = 57"
    by (simp add: rand_sixteenths)
  have b: "spec_buckets 57 = [PolicyUnlock]"
    by (simp add: spec_buckets_def spec_ranges_def)
  have l: "locked_policies (initialState (1 / 2)) = policy_names"
    by (simp add: locked_policies_def initialState_def mk_policy_def policy_names_def)
  have i: "index_at (locked_policies (initialState (1 / 2))) (9 / 16) = Some ''Open Borders''"
    by (simp add: l policy_names_def index_at_def Let_def round_double_halves floor_numeral_div)
  from random_event_dispatch [OF u d, unfolded r b]
  have "map_option (\<lambda>(s', g'). (s'\<lparr>logs := logs (initialState (1 / 2))\<rparr>, g'))
        (dispatch random_event (initialState (1 / 2)) (sconst (9 / 16)))
      = spec_outcome PolicyUnlock (initialState (1 / 2)) (stl (sconst (9 / 16)))"
    by simp
  also have "\<dots> = Some ((initialState (1 / 2))
                \<lparr>policies := unlock_policy ''Open Borders'' (policies (initialState (1 / 2)))\<rparr>,
              sconst (9 / 16))"
    using i by (simp add: l policy_names_def)
  finally show ?thesis
    using u d r b i by (intro conjI)
qed

subsection \<open>Logging of random events\<close>

text \<open>
  C9 as stated fails: with a roll between 56 and 60 and no locked policy left, the
  resolver returns the state as it is, and the log gains no entry.
\<close>

theorem random_event_silent_counterexample:
  "rand 1 100 (shd (sconst (9 / 16))) = 57
   \<and> locked_policies unlocked_state = []
   \<and> dispatch random_event unlocked_state (sconst (9 / 16))
       = Some (unlocked_state, sconst (9 / 16))"
proof -
  have r: "rand 1 100 (shd (sconst (9 / 16))) = 57"
    by (simp add: rand_sixteenths)
  have l: "locked_policies unlocked_state = []"
    by (simp add: locked_policies_def unlocked_state_def initialState_def mk_policy_def)
  have k: "locked_keys unlocked_state = []"
    by (simp add: locked_keys_def unlocked_state_def initialState_def mk_policy_def)
  from r l k show ?thesis
    by (simp add: random_event_def dispatch_def Let_def)
qed

text \<open>
  C9, amended. Outside the merchant bucket, an invocation of the random event resolver
  appends exactly one log entry, and its tag reflects the valence of the outcome: warn
  for a protest, a lost fight against the rogue faction, famine, flood and the cursed
  relic; good for a repelled faction, the royal decision, the blessed relic, a festival
  and a treasure; system for an unlocked policy; muted for a calm day. The exception is
  the policy-unlock bucket (roll 56-60) when no locked policy remains: there nothing is
  logged and the state is unchanged.
\<close>

theorem random_event_logs_once:
  assumes "unit_draws g" and "distinct (map fst (policies s))"
    and "length (policies s) \<le> 2 ^ 53"
    and "\<not> (21 \<le> rand 1 100 (shd g) \<and> rand 1 100 (shd g) \<le> 30)"
  shows "if 56 \<le> rand 1 100 (shd g) \<and> rand 1 100 (shd g) \<le> 60 \<and> locked_policies s = []
     then dispatch random_event s g = Some (s, stl g)
     else (\<exists>b s' g' e. spec_buckets (rand 1 100 (shd g)) = [b]
            \<and> dispatch random_event s g = Some (s', g')
            \<and> logs s' = slice_last 600 (logs s @ [e])
            \<and> ltag e = valence_tag b (first_branch b (stl g))
            \<and> lid e = (if logs s \<noteq> [] then lid (last (logs s)) + 1 else 1))"
proof -
  let ?r = "rand 1 100 (shd g)"
  from random_event_bucket [OF assms(1,2)] obtain b where
    b: "spec_buckets ?r = [b]"
    and p: "b = PolicyUnlock \<and> locked_policies s = [] \<longrightarrow>
          dispatch random_event s g = Some (s, stl g)"
    and o: "b \<noteq> MerchantEvent \<and> \<not> (b = PolicyUnlock \<and> locked_policies s = []) \<longrightarrow>
          (\<exists>txt. dispatch random_event s g =
             map_option (\<lambda>(s1, g1). (append_entry txt
                 (valence_tag b (first_branch b (stl g))) s1, g1))
               (spec_outcome b s (stl g)))"
    by blast
  have nm: "b \<noteq> MerchantEvent"
  proof
    assume "b = MerchantEvent"
    with b have "MerchantEvent \<in> set (spec_buckets ?r)" by simp
    then have "21 \<le> ?r \<and> ?r \<le> 30"
      by (rule merchant_bucket_range)
    with assms(4) show False by simp
  qed
  have pu: "b = PolicyUnlock \<longleftrightarrow> 56 \<le> ?r \<and> ?r \<le> 60"
  proof
    assume "b = PolicyUnlock"
    with b have "PolicyUnlock \<in> set (spec_buckets ?r)" by simp
    then show "56 \<le> ?r \<and> ?r \<le> 60"
      by (rule policy_bucket_range)
  next
    assume "56 \<le> ?r \<and> ?r \<le> 60"
    then have "spec_buckets ?r = [PolicyUnlock]"
      by (simp add: spec_buckets_cases)
    with b show "b = PolicyUnlock" by simp
  qed
  show ?thesis
  proof (cases "b = PolicyUnlock \<and> locked_policies s = []")
    case True
    with p pu show ?thesis by simp
  next
    case False
    with nm o have "\<exists>txt. dispatch random_event s g =
             map_option (\<lambda>(s1, g1). (append_entry txt
                 (valence_tag b (first_branch b (stl g))) s1, g1))
               (spec_outcome b s (stl g))"
      by blast
    from logged_once [OF this nm unit_draws_stl [OF assms(1)] assms(3)] b False pu show ?thesis
      by auto
  qed
qed

theorem random_event_logs_once_witness:
  "unit_draws (sconst (3 / 4))
   \<and> distinct (map fst (policies (initialState (1 / 2))))
   \<and> length (policies (initialState (1 / 2))) \<le> 2 ^ 53
   \<and> rand 1 100 (shd (sconst (3 / 4))) = 76
   \<and> spec_buckets 76 = [Treasure]
   \<and> (\<exists>s' g' e. dispatch random_event (initialState (1 / 2)) (sconst (3 / 4)) = Some (s', g')
        \<and> logs s' = slice_last 600 (logs (initialState (1 / 2)) @ [e])
        \<and> ltag e = Good)"
proof -
  have u: "unit_draws (sconst (3 / 4))"
    by (simp add: unit_draws_def)
  have d: "distinct (map fst (policies (initialState (1 / 2))))"
      "length (policies (initialState (1 / 2))) \<le> 2 ^ 53"
    by (simp_all add: initialState_def)
  have r: "rand 1 100 (shd (sconst (3 / 4))) = 76"
    by (simp add: rand_quarters)
  have b: "spec_buckets 76 = [Treasure]"
    by (simp add: spec_buckets_def spec_ranges_def)
  have n: "\<not> (21 \<le> rand 1 100 (shd (sconst (3 / 4))) \<and> rand 1 100 (shd (sconst (3 / 4))) \<le> 30)"
    by (simp only: r) simp
  from random_event_logs_once [OF u d n, unfolded r b]
  have "\<exists>s' g' e. dispatch random_event (initialState (1 / 2)) (sconst (3 / 4)) = Some (s', g')
        \<and> logs s' = slice_last 600 (logs (initialState (1 / 2)) @ [e])
        \<and> ltag e = Good"
    by auto
  with u d r b show ?thesis
    by (intro conjI)
qed

subsection \<open>The daily draw of Sleep\<close>

lemma drawn_refl: "drawn 0 g g"
  unfolding drawn_def by (intro exI [of _ 0]) simp

lemma drawn_stl: "drawn k g g' \<Longrightarrow> drawn (Suc k) g (stl g')"
  unfolding drawn_def
proof -
  assume "\<exists>n \<ge> k. g' = sdrop n g"
  then obtain n where n: "k \<le> n" "g' = sdrop n g" by blast
  then have "stl g' = sdrop (Suc n) g"
    using sdrop_stl [of n g] by simp
  with n(1) show "\<exists>n \<ge> Suc k. stl g' = sdrop n g"
    by (intro exI [of _ "Suc n"]) simp
qed

lemma drawn_trans: "drawn j g g' \<Longrightarrow> drawn k g' g'' \<Longrightarrow> drawn (j + k) g g''"
  unfolding drawn_def
proof -
  assume "\<exists>n \<ge> j. g' = sdrop n g" and "\<exists>n \<ge> k. g'' = sdrop n g'"
  then obtain n m where "j \<le> n" "g' = sdrop n g" "k \<le> m" "g'' = sdrop m g'" by blast
  then show "\<exists>n \<ge> j + k. g'' = sdrop n g"
    by (intro exI [of _ "n + m"]) (simp add: sdrop_add)
qed

lemma drawn_weaken: "drawn k g g' \<Longrightarrow> j \<le> k \<Longrightarrow> drawn j g g'"
proof -
  assume "drawn k g g'" and j: "j \<le> k"
  then obtain n where "k \<le> n" "g' = sdrop n g"
    unfolding drawn_def by blast
  with j show ?thesis
    unfolding drawn_def by (intro exI [of _ n]) simp
qed

lemma drawn_zero: "drawn k g g' \<Longrightarrow> drawn 0 g g'"
  using drawn_weaken [of k g g' 0] by simp

lemma drawn_one: "drawn (Suc 0) g (stl g)"
  using drawn_stl [OF drawn_refl] by simp

lemma drawn_two: "drawn (Suc 0) g (stl (stl g))"
  using drawn_weaken [OF drawn_stl [OF drawn_stl [OF drawn_refl]], of "Suc 0" g] by simp

lemma drawn_three: "drawn (Suc 0) g (stl (stl (stl g)))"
  using drawn_weaken [OF drawn_stl [OF drawn_stl [OF drawn_stl [OF drawn_refl]]], of "Suc 0" g]
  by simp

lemmas drawn_some = drawn_refl drawn_one drawn_two drawn_three drawn_zero [OF drawn_one]
  drawn_zero [OF drawn_two] drawn_zero [OF drawn_three]

lemma sleep_food_rng: "sleep_food prev g = Some (next, lg, g0) \<Longrightarrow> g0 = g"
  by (auto simp: sleep_food_def Let_def split: option.splits if_splits)

lemma sleep_daily_draw_rng': 
  "snd (snd (sleep_daily_draw (next, lg, g)))
     = (if rand 1 100 (shd g) \<le> 40 then stl (stl g) else stl g)"
  by (simp add: sleep_daily_draw_def Let_def)

lemma sleep_daily_draw_rng:
  assumes "sleep_daily_draw (next, lg, g) = (n1, lg1, g1)"
  shows "drawn (Suc 0) g g1"
proof -
  from assms have "g1 = snd (snd (sleep_daily_draw (next, lg, g)))" by simp
  then show ?thesis
    by (simp add: sleep_daily_draw_rng' drawn_some)
qed

lemma sleep_flavour_rng: "sleep_flavour (next, lg, g) = (n1, lg1, g1) \<Longrightarrow> g1 = g"
  by (auto simp: sleep_flavour_def Let_def split: option.splits if_splits)

lemma upkeep_universal_tax_rng:
  "upkeep_universal_tax (n, lg, g) = Some (n1, lg1, g1) \<Longrightarrow> drawn 0 g g1"
  by (auto simp: upkeep_universal_tax_def Let_def drawn_some split: option.splits if_splits)

lemma upkeep_charity_relief_rng:
  "upkeep_charity_relief (n, lg, g) = Some (n1, lg1, g1) \<Longrightarrow> drawn 0 g g1"
  by (auto simp: upkeep_charity_relief_def Let_def drawn_some split: option.splits if_splits)

lemma upkeep_royal_festival_rng:
  "upkeep_royal_festival (n, lg, g) = Some (n1, lg1, g1) \<Longrightarrow> drawn 0 g g1"
  by (auto simp: upkeep_royal_festival_def Let_def drawn_some split: option.splits if_splits)

lemma upkeep_public_health_rng:
  "upkeep_public_health (n, lg, g) = Some (n1, lg1, g1) \<Longrightarrow> drawn 0 g g1"
  by (auto simp: upkeep_public_health_def Let_def drawn_some split: option.splits if_splits)

lemma upkeep_open_borders_rng:
  "upkeep_open_borders (n, lg, g) = Some (n1, lg1, g1) \<Longrightarrow> drawn 0 g g1"
  by (auto simp: upkeep_open_borders_def Let_def drawn_some split: option.splits if_splits)

lemma upkeep_electric_welfare_rng:
  "upkeep_electric_welfare (n, lg, g) = Some (n1, lg1, g1) \<Longrightarrow> drawn 0 g g1"
  by (auto simp: upkeep_electric_welfare_def Let_def drawn_some split: option.splits if_splits)

lemmas upkeep_rng = upkeep_universal_tax_rng upkeep_charity_relief_rng upkeep_royal_festival_rng
  upkeep_public_health_rng upkeep_open_borders_rng upkeep_electric_welfare_rng

lemma sleep_upkeep_rng:
  assumes "sleep_upkeep (n, lg, g) = Some (n6, lg6, g6)"
  shows "drawn 0 g g6"
proof -
  from assms obtain w1 w2 w3 w4 w5 where
    u: "upkeep_universal_tax (n, lg, g) = Some w1" "upkeep_charity_relief w1 = Some w2"
      "upkeep_royal_festival w2 = Some w3" "upkeep_public_health w3 = Some w4"
      "upkeep_open_borders w4 = Some w5" "upkeep_electric_welfare w5 = Some (n6, lg6, g6)"
    by (auto simp: sleep_upkeep_def split: Option.bind_splits)
  obtain n1 l1 g1 n2 l2 g2 n3 l3 g3 n4 l4 g4 n5 l5 g5 where
    w: "w1 = (n1, l1, g1)" "w2 = (n2, l2, g2)" "w3 = (n3, l3, g3)" "w4 = (n4, l4, g4)"
      "w5 = (n5, l5, g5)"
    by (metis prod_cases3)
  from u w have "drawn 0 g g1" "drawn 0 g1 g2" "drawn 0 g2 g3" "drawn 0 g3 g4" "drawn 0 g4 g5"
      "drawn 0 g5 g6"
    by (simp_all add: upkeep_rng)
  then have "drawn (0 + 0 + 0 + 0 + 0 + 0) g g6"
    by (intro drawn_trans)
  then show ?thesis
    by simp
qed

lemma sleep_update_rng:
  assumes "sleep_update prev g = Some (s1, lg1, g1)"
  shows "drawn (Suc 0) g g1"
proof -
  from assms obtain w where f: "sleep_food prev g = Some w"
    and c: "sleep_death_check (sleep_flavour (sleep_daily_draw w)) = Some (s1, lg1, g1)"
    by (auto simp: sleep_update_def split: Option.bind_splits)
  obtain n0 l0 g0 where w: "w = (n0, l0, g0)" by (metis prod_cases3)
  from sleep_food_rng [OF f [unfolded w]] have g0: "g0 = g" .
  obtain n2 l2 g2 where d: "sleep_daily_draw (n0, l0, g) = (n2, l2, g2)" by (metis prod_cases3)
  obtain n3 l3 g3 where fl: "sleep_flavour (n2, l2, g2) = (n3, l3, g3)" by (metis prod_cases3)
  from sleep_flavour_rng [OF fl] have g3: "g3 = g2" .
  from sleep_daily_draw_rng [OF d] have d1: "drawn (Suc 0) g g2" .
  from c [unfolded w g0 d fl g3] have "drawn 0 g2 g1"
    by (auto simp: sleep_death_check_def drawn_refl dest: sleep_upkeep_rng split: if_splits)
  from drawn_trans [OF d1 this] show ?thesis by simp
qed


lemma merchant_event_rng:
  assumes "merchant_event s g = Some (q, g1)"
  shows "g1 = stl g \<or> g1 = stl (stl g)"
proof -
  let ?A = "map_of MERCHANT_BY_ERA (currentEra s) \<noteq> None
     \<and> map_of (merchant_weapon_log s) (currentEra s) = None"
  from assms have "g1 = stl (if ?A then stl g else g)"
    by (auto simp: merchant_event_def Let_def split_beta split: if_splits option.splits)
  then show ?thesis
    by (simp split: if_splits)
qed

lemma random_event_rng:
  assumes "random_event s g = Some (q, g1)"
  shows "drawn (Suc 0) g g1"
proof (cases "20 < rand 1 100 (shd g) \<and> rand 1 100 (shd g) \<le> 30")
  case True
  with assms have "merchant_event s (stl g) = Some (q, g1)"
    by (simp add: random_event_def Let_def)
  from merchant_event_rng [OF this] show ?thesis
    by (auto simp: drawn_some)
next
  case False
  with assms have "g1 = stl g \<or> g1 = stl (stl g) \<or> g1 = stl (stl (stl g))"
    by (auto simp: random_event_def Let_def split: if_splits option.splits)
  then show ?thesis
    by (auto simp: drawn_some)
qed

lemma dispatch_command_sleep:
  "dispatch command_sleep s g =
     (case random_event s g of
        None \<Rightarrow> None
      | Some (q, g1) \<Rightarrow>
          (case sleep_update s g1 of
             None \<Rightarrow> None
           | Some (s1, lg, g2) \<Rightarrow> run_queue q lg s1 g2))"
  by (simp add: dispatch_def command_sleep_def split: option.splits)

lemma fst_sleep_flavour: "fst (sleep_flavour w) = fst w"
  by (cases w) (simp add: sleep_flavour_def Let_def split: option.splits)

lemma sleep_daily_draw_state:
  "fst (sleep_daily_draw (next, lg, g)) =
     daily_effect (rand 1 100 (shd g)) (daily_amount (rand 1 100 (shd g)) (shd (stl g))) next"
  if "1 \<le> rand 1 100 (shd g)"
  using that by (simp add: sleep_daily_draw_def daily_effect_def daily_amount_def Let_def clamp_def)

lemma sleep_update_food:
  assumes "sleep_food prev g = Some (next, lg, g0)"
  shows "sleep_update prev g = sleep_death_check (sleep_flavour (sleep_daily_draw (next, lg, g)))"
  using assms sleep_food_rng [OF assms] by (simp add: sleep_update_def)

lemma sleep_update_last_day:
  assumes "sleep_food prev g = Some (next, lg, g0)" and "day next \<ge> death_day next"
  shows "map_option fst (sleep_update prev g) = Some (fst (sleep_daily_draw (next, lg, g)))"
proof -
  obtain n2 l2 g2 where d: "sleep_daily_draw (next, lg, g) = (n2, l2, g2)"
    by (metis prod_cases3)
  obtain n3 l3 g3 where f: "sleep_flavour (n2, l2, g2) = (n3, l3, g3)"
    by (metis prod_cases3)
  from fst_sleep_flavour [of "(n2, l2, g2)"] f have n3: "n3 = n2" by simp
  have "day n2 = day next \<and> death_day n2 = death_day next"
    using d by (auto simp: sleep_daily_draw_def Let_def split: if_splits)
  with assms(2) n3 show ?thesis
    by (simp add: sleep_update_food [OF assms(1)] d f sleep_death_check_def)
qed

text \<open>
  C10. The update of Sleep draws, after the food block and before the death-day check,
  an integer between 1 and 100 of its own; the food block draws nothing, so it is the
  first draw of the update. On 1-15 bandits take \<open>rand 50 200\<close> coins, not below 0; on
  16-30 a festival adds \<open>rand 5 15\<close> happiness, clamped; on 31-40 \<open>rand 3 10\<close> travellers
  join, people capped at \<open>maxpeople\<close>; on 41-100 the state stays as it is. The flavour
  lines that follow only log, and on the death day the state the update returns is the
  state after this draw. The draw is not the roll of the random event resolver: during a
  render the update draws from the values the resolver's body has left, at least one draw
  later; computed at the call of \<open>set\<close>, the update draws first and the resolver rolls at
  least one draw later.
\<close>

theorem sleep_daily_draw_effect:
  assumes "0 \<le> shd g" and "shd g \<le> 1 - 1 / 2 ^ 53"
  shows "1 \<le> rand 1 100 (shd g) \<and> rand 1 100 (shd g) \<le> 100
     \<and> fst (sleep_daily_draw (next, lg, g)) =
          daily_effect (rand 1 100 (shd g)) (daily_amount (rand 1 100 (shd g)) (shd (stl g))) next
     \<and> fst (sleep_flavour (sleep_daily_draw (next, lg, g))) = fst (sleep_daily_draw (next, lg, g))
     \<and> (sleep_food prev g = Some (next, lg, g0) \<longrightarrow>
          g0 = g
          \<and> sleep_update prev g
              = sleep_death_check (sleep_flavour (sleep_daily_draw (next, lg, g)))
          \<and> (day next \<ge> death_day next \<longrightarrow>
               map_option fst (sleep_update prev g) =
                 Some (daily_effect (rand 1 100 (shd g))
                         (daily_amount (rand 1 100 (shd g)) (shd (stl g))) next)))
     \<and> (dispatch command_sleep s h = Some (s', h') \<longrightarrow>
          (\<exists>q h1 s1 lg1 h2. random_event s h = Some (q, h1) \<and> drawn 1 h h1
             \<and> sleep_update s h1 = Some (s1, lg1, h2) \<and> run_queue q lg1 s1 h2 = Some (s', h')))
     \<and> (command_sleep_eager s h = Some (s', h') \<longrightarrow>
          (\<exists>s1 lg1 h1 q h2. sleep_update s h = Some (s1, lg1, h1) \<and> drawn 1 h h1
             \<and> random_event s h1 = Some (q, h2) \<and> run_queue q [] s1 h2 = Some (s', h')))"
proof -
  from rand_range [OF assms, of 1 100]
  have r: "1 \<le> rand 1 100 (shd g) \<and> rand 1 100 (shd g) \<le> 100"
    by simp
  then have e: "fst (sleep_daily_draw (next, lg, g)) =
      daily_effect (rand 1 100 (shd g)) (daily_amount (rand 1 100 (shd g)) (shd (stl g))) next"
    by (simp add: sleep_daily_draw_state)
  have f: "sleep_food prev g = Some (next, lg, g0) \<longrightarrow>
          g0 = g
          \<and> sleep_update prev g
              = sleep_death_check (sleep_flavour (sleep_daily_draw (next, lg, g)))
          \<and> (day next \<ge> death_day next \<longrightarrow>
               map_option fst (sleep_update prev g) =
                 Some (daily_effect (rand 1 100 (shd g))
                         (daily_amount (rand 1 100 (shd g)) (shd (stl g))) next))"
    using sleep_food_rng [of prev g "next" lg g0] sleep_update_food [of prev g "next" lg g0]
      sleep_update_last_day [of prev g "next" lg g0] e
    by simp
  have b: "dispatch command_sleep s h = Some (s', h') \<longrightarrow>
          (\<exists>q h1 s1 lg1 h2. random_event s h = Some (q, h1) \<and> drawn 1 h h1
             \<and> sleep_update s h1 = Some (s1, lg1, h2) \<and> run_queue q lg1 s1 h2 = Some (s', h'))"
    using random_event_rng [of s h]
    by (auto simp: dispatch_command_sleep split: option.splits)
  have c: "command_sleep_eager s h = Some (s', h') \<longrightarrow>
          (\<exists>s1 lg1 h1 q h2. sleep_update s h = Some (s1, lg1, h1) \<and> drawn 1 h h1
             \<and> random_event s h1 = Some (q, h2) \<and> run_queue q [] s1 h2 = Some (s', h'))"
    using sleep_update_rng [of s h]
    by (auto simp: command_sleep_eager_def split: option.splits)
  from r e f b c show ?thesis
    by (simp only: fst_sleep_flavour simp_thms)
qed

theorem sleep_daily_draw_effect_witness:
  "0 \<le> shd (sconst (1 / 16 :: rat)) \<and> shd (sconst (1 / 16 :: rat)) \<le> 1 - 1 / 2 ^ 53
   \<and> rand 1 100 (shd (sconst (1 / 16))) = 7
   \<and> rand 50 200 (shd (stl (sconst (1 / 16)))) = 59
   \<and> fst (sleep_daily_draw (poor_state, [], sconst (1 / 16))) = poor_state\<lparr>money := 41\<rparr>"
proof -
  have h1: "0 \<le> shd (sconst (1 / 16 :: rat))" and h2: "shd (sconst (1 / 16 :: rat)) \<le> 1 - 1 / 2 ^ 53"
    by simp_all
  have r: "rand 1 100 (shd (sconst (1 / 16))) = 7" "rand 50 200 (shd (stl (sconst (1 / 16)))) = 59"
    by (simp_all add: rand_sixteenths)
  have m: "money poor_state = 100"
    by (simp add: poor_state_def)
  from sleep_daily_draw_effect [OF h1 h2, of poor_state "[]"]
  have "fst (sleep_daily_draw (poor_state, [], sconst (1 / 16))) =
      daily_effect (rand 1 100 (shd (sconst (1 / 16))))
        (daily_amount (rand 1 100 (shd (sconst (1 / 16)))) (shd (stl (sconst (1 / 16))))) poor_state"
    by blast
  then have "fst (sleep_daily_draw (poor_state, [], sconst (1 / 16))) = poor_state\<lparr>money := 41\<rparr>"
    by (simp add: daily_effect_def daily_amount_def rand_sixteenths m round_double_numeral)
  with h1 h2 r show ?thesis
    by (intro conjI)
qed

subsection \<open>The order of a night\<close>

text \<open>
  C3 as stated fails. With 20 coins, Charity Relief active and a treasure of 500 coins
  as the night's event, the source ends with 520 coins and happiness 50: the upkeep ran
  before the event and found too few coins. In the stated order the treasure would come
  first and the relief would be paid (490 coins, happiness 54). On the death day with
  Universal Tax active the source skips the upkeep (1000490 coins, happiness 50), while
  the stated order would collect the tax first (1000533 coins, happiness 48). The numbers
  are the same whether the update runs during a render or at the call of \<open>set\<close>.
\<close>

theorem command_sleep_order_counterexample:
  "map_option (\<lambda>(s, g). (money s, happiness s))
     (dispatch command_sleep charity_state (sconst (3 / 4))) = Some (520, 50)
   \<and> map_option (\<lambda>(s, g). (money s, happiness s))
     (command_sleep_eager charity_state (sconst (3 / 4))) = Some (520, 50)
   \<and> map_option (\<lambda>(s, g). (money s, happiness s))
     (sleep_as_claimed charity_state (sconst (3 / 4))) = Some (490, 54)
   \<and> map_option (\<lambda>(s, g). (money s, happiness s))
     (dispatch command_sleep last_day_state (sconst (3 / 4))) = Some (1000490, 50)
   \<and> map_option (\<lambda>(s, g). (money s, happiness s))
     (command_sleep_eager last_day_state (sconst (3 / 4))) = Some (1000490, 50)
   \<and> map_option (\<lambda>(s, g). (money s, happiness s))
     (sleep_as_claimed last_day_state (sconst (3 / 4))) = Some (1000533, 48)"
proof -
  have c: "map_option (\<lambda>(s, g). (money s, happiness s))
      (dispatch command_sleep charity_state (sconst (3 / 4))) = Some (520, 50)"
    by (simp add: sleep_defs random_event_def eval_defs charity_state_def activate_def
        initialState_def mk_policy_def)
  have ce: "map_option (\<lambda>(s, g). (money s, happiness s))
      (command_sleep_eager charity_state (sconst (3 / 4))) = Some (520, 50)"
    by (simp add: command_sleep_eager_def sleep_defs random_event_def eval_defs charity_state_def
        activate_def initialState_def mk_policy_def)
  have c': "map_option (\<lambda>(s, g). (money s, happiness s))
      (sleep_as_claimed charity_state (sconst (3 / 4))) = Some (490, 54)"
    by (simp add: sleep_as_claimed_def sleep_defs random_event_def eval_defs charity_state_def
        activate_def initialState_def mk_policy_def)
  have d: "map_option (\<lambda>(s, g). (money s, happiness s))
      (dispatch command_sleep last_day_state (sconst (3 / 4))) = Some (1000490, 50)"
    by (simp add: sleep_defs random_event_def eval_defs last_day_state_def activate_def
        initialState_def mk_policy_def)
  have de: "map_option (\<lambda>(s, g). (money s, happiness s))
      (command_sleep_eager last_day_state (sconst (3 / 4))) = Some (1000490, 50)"
    by (simp add: command_sleep_eager_def sleep_defs random_event_def eval_defs
        last_day_state_def activate_def initialState_def mk_policy_def)
  have d': "map_option (\<lambda>(s, g). (money s, happiness s))
      (sleep_as_claimed last_day_state (sconst (3 / 4))) = Some (1000533, 48)"
    by (simp add: sleep_as_claimed_def sleep_defs random_event_def eval_defs last_day_state_def
        activate_def initialState_def mk_policy_def)
  from c ce c' d de d' show ?thesis
    by (intro conjI)
qed

text \<open>
  C3, amended. The update of Sleep applies the food block, the daily draw and the
  flavour lines, then checks the death day: on or after it the update returns at once
  and the policy upkeep is skipped, otherwise the upkeep follows. The updaters of the
  random event resolver run after that update, on the state it leaves. During a render
  the body of the resolver draws before the update, and the lines the update logs, the
  terminal line among them, are appended after the updaters of the event; when the update
  is computed at the call of \<open>set\<close>, it draws before the resolver and its lines are not
  kept.
\<close>

theorem command_sleep_order:
  "dispatch command_sleep s g =
     (case random_event s g of
        None \<Rightarrow> None
      | Some (q, g1) \<Rightarrow>
          (case sleep_food s g1 of
             None \<Rightarrow> None
           | Some w \<Rightarrow>
               (case sleep_flavour (sleep_daily_draw w) of
                  (next, lg, g2) \<Rightarrow>
                    if day next \<ge> death_day next then
                      run_queue q
                        (lg @ [append_entry
                           ''Your time has come. Your kingdom now lives on in legend.'' Danger])
                        next g2
                    else
                      (case sleep_upkeep (next, lg, g2) of
                         None \<Rightarrow> None
                       | Some (s3, lg3, g3) \<Rightarrow> run_queue q lg3 s3 g3))))
   \<and> command_sleep_eager s g =
     (case sleep_food s g of
        None \<Rightarrow> None
      | Some w \<Rightarrow>
          (case sleep_flavour (sleep_daily_draw w) of
             (next, lg, g2) \<Rightarrow>
               if day next \<ge> death_day next then
                 (case random_event s g2 of
                    None \<Rightarrow> None
                  | Some (q, g3) \<Rightarrow> run_queue q [] next g3)
               else
                 (case sleep_upkeep (next, lg, g2) of
                    None \<Rightarrow> None
                  | Some (s3, lg3, g3) \<Rightarrow>
                      (case random_event s g3 of
                         None \<Rightarrow> None
                       | Some (q, g4) \<Rightarrow> run_queue q [] s3 g4))))"
proof -
  have a: "dispatch command_sleep s g =
     (case random_event s g of
        None \<Rightarrow> None
      | Some (q, g1) \<Rightarrow>
          (case sleep_food s g1 of
             None \<Rightarrow> None
           | Some w \<Rightarrow>
               (case sleep_flavour (sleep_daily_draw w) of
                  (next, lg, g2) \<Rightarrow>
                    if day next \<ge> death_day next then
                      run_queue q
                        (lg @ [append_entry
                           ''Your time has come. Your kingdom now lives on in legend.'' Danger])
                        next g2
                    else
                      (case sleep_upkeep (next, lg, g2) of
                         None \<Rightarrow> None
                       | Some (s3, lg3, g3) \<Rightarrow> run_queue q lg3 s3 g3))))"
    by (simp add: dispatch_command_sleep sleep_update_def sleep_death_check_def
        split: option.splits prod.splits)
  have b: "command_sleep_eager s g =
     (case sleep_food s g of
        None \<Rightarrow> None
      | Some w \<Rightarrow>
          (case sleep_flavour (sleep_daily_draw w) of
             (next, lg, g2) \<Rightarrow>
               if day next \<ge> death_day next then
                 (case random_event s g2 of
                    None \<Rightarrow> None
                  | Some (q, g3) \<Rightarrow> run_queue q [] next g3)
               else
                 (case sleep_upkeep (next, lg, g2) of
                    None \<Rightarrow> None
                  | Some (s3, lg3, g3) \<Rightarrow>
                      (case random_event s g3 of
                         None \<Rightarrow> None
                       | Some (q, g4) \<Rightarrow> run_queue q [] s3 g4))))"
  proof (cases "sleep_food s g")
    case None
    then show ?thesis
      by (simp add: command_sleep_eager_def sleep_update_def)
  next
    case (Some w)
    obtain n2 l2 h2 where f: "sleep_flavour (sleep_daily_draw w) = (n2, l2, h2)"
      by (metis prod_cases3)
    show ?thesis
    proof (cases "day n2 \<ge> death_day n2")
      case True
      with Some f show ?thesis
        by (simp add: command_sleep_eager_def sleep_update_def sleep_death_check_def)
    next
      case False
      with Some f show ?thesis
        by (cases "sleep_upkeep (n2, l2, h2)")
           (auto simp: command_sleep_eager_def sleep_update_def sleep_death_check_def)
    qed
  qed
  from a b show ?thesis
    by (rule conjI)
qed

subsection \<open>Bounds kept by every command\<close>



lemma state_inv_append_entry [simp]: "state_inv (append_entry t tg s) = state_inv s"
  by (simp add: append_entry_def Let_def state_inv_def ledger_inv_def ehealth_cap_def)

lemma inner_ok_append_entry [simp]: "inner_ok (append_entry t tg)"
  by (simp add: inner_ok_def)

lemma upd_ok_appendLog [simp]: "upd_ok (appendLog t tg)"
  by (simp add: upd_ok_def appendLog_def set_state_def)


lemmas inv_defs = state_inv_def ledger_inv_def ehealth_cap_def inventory_ok_def cfg_ok_def

lemma state_inv_other_fields [simp]:
  "state_inv (s\<lparr>name := v0\<rparr>) = state_inv s"
  "state_inv (s\<lparr>day := v1\<rparr>) = state_inv s"
  "state_inv (s\<lparr>death_day := v2\<rparr>) = state_inv s"
  "state_inv (s\<lparr>money := v3\<rparr>) = state_inv s"
  "state_inv (s\<lparr>exmoney := v4\<rparr>) = state_inv s"
  "state_inv (s\<lparr>pmoney := v5\<rparr>) = state_inv s"
  "state_inv (s\<lparr>maxphealth := v6\<rparr>) = state_inv s"
  "state_inv (s\<lparr>currentEra := v7\<rparr>) = state_inv s"
  "state_inv (s\<lparr>currentSword := v8\<rparr>) = state_inv s"
  "state_inv (s\<lparr>minDmg := v9\<rparr>) = state_inv s"
  "state_inv (s\<lparr>maxDmg := v10\<rparr>) = state_inv s"
  "state_inv (s\<lparr>wfight := v11\<rparr>) = state_inv s"
  "state_inv (s\<lparr>lfight := v12\<rparr>) = state_inv s"
  "state_inv (s\<lparr>merchant_relationship := v13\<rparr>) = state_inv s"
  "state_inv (s\<lparr>merchant_weapon_log := v14\<rparr>) = state_inv s"
  "state_inv (s\<lparr>last_merchant_offer_type := v15\<rparr>) = state_inv s"
  "state_inv (s\<lparr>number := v16\<rparr>) = state_inv s"
  "state_inv (s\<lparr>owned_weapon := v17\<rparr>) = state_inv s"
  "state_inv (s\<lparr>logs := v18\<rparr>) = state_inv s"
  "state_inv (s\<lparr>pendingMerchant := v19\<rparr>) = state_inv s"
  by (simp_all add: inv_defs)














































































end
